theory Spec2Isabelle
  imports Main "HOL-Library.Word"
begin

section \<open>Data model of the image service (daemon/images)\<close>

text \<open>
  Identifiers (image IDs, chain IDs, diff IDs, RW-layer names, archive handles) are Go
  strings. Go's \<open>error\<close> values are modelled by the datatype \<open>err\<close>: the sentinel
  errors the code tests for, free-form errors, and wrapping (\<open>errors.Wrapf\<close>), which
  \<open>errors.Is\<close> looks through.
\<close>

type_synonym image_id = string
type_synonym chain_id = string
type_synonym diff_id = string
type_synonym rwlayer = string
type_synonym archive = string

datatype err =
    ContextCanceled
  | ContextDeadlineExceeded
  | ErrMountDoesNotExist
  | OsErrNotExist
  | ErrImageNotFound
  | Errorf string
  | Wrapf string err

fun errors_Is :: "err \<Rightarrow> err \<Rightarrow> bool" where
  "errors_Is (Wrapf m c) t = (Wrapf m c = t \<or> errors_Is c t)"
| "errors_Is e t = (e = t)"

text \<open>
  A context is observed by polling: \<open>ctx k\<close> is what the \<open>k\<close>-th observation of the
  context sees, \<open>None\<close> while it is live and \<open>Some e\<close> once it is done with error
  \<open>e\<close> (\<open>ctx.Err()\<close>, or a closed \<open>ctx.Done()\<close> followed by \<open>ctx.Err()\<close>).
\<close>

type_synonym ctx = "nat \<Rightarrow> err option"

record rootfs =
  rfs_Type :: string
  DiffIDs :: "diff_id list"

text \<open>
  Of \<open>image.Image\<close> this code reads the field \<open>RootFS\<close> only; the remaining fields
  are kept as one opaque value, whose zero value is the empty string.
\<close>

record image =
  RootFS :: rootfs
  img_other :: string

text \<open>A read-only layer, with the results of its methods \<open>ChainID()\<close>, \<open>DiffID()\<close>
  and \<open>DiffSize()\<close> (an \<open>int64\<close>).\<close>

record layer =
  l_ChainID :: chain_id
  l_DiffID :: diff_id
  l_DiffSize :: "64 word"

record 'c CommitConfig =
  Author :: string
  Comment :: string
  Config :: 'c
  ContainerConfig :: 'c
  ContainerID :: string
  ContainerMountLabel :: string
  ContainerOS :: string
  ParentImageID :: string

record 'c ChildConfig =
  cc_ContainerID :: string
  cc_Author :: string
  cc_Comment :: string
  cc_ContainerConfig :: 'c
  cc_Config :: 'c
  cc_DiffID :: diff_id

record CreateRWLayerOpts =
  o_MountLabel :: string
  o_InitFunc :: string
  o_StorageOpt :: "(string \<times> string) list"

record Container =
  ct_ID :: string
  ct_ImageID :: image_id
  ct_MountLabel :: string
  ct_StorageOpt :: "(string \<times> string) list"

text \<open>
  The collaborators of the image service (layer store, RW layers, image store, reference
  store, JSON encoder) are interfaces implemented outside this code. Their answers are
  parameters: each field gives the result of one method as a function of its arguments.
  Every method is called at most once with the same arguments by the operations below,
  so this covers stateful implementations as well.
\<close>

record 'c stores =
  ls_GetRWLayer :: "string \<Rightarrow> err + rwlayer"
  rw_Mount :: "rwlayer \<Rightarrow> string \<Rightarrow> err + string"
  rw_TarStream :: "rwlayer \<Rightarrow> err + archive"
  rw_Unmount :: "rwlayer \<Rightarrow> err option"
  ls_ReleaseRWLayer :: "rwlayer \<Rightarrow> chain_id list \<times> err option"
  ls_Register :: "archive \<Rightarrow> chain_id \<Rightarrow> err + layer"
  ls_CreateRWLayer :: "string \<Rightarrow> chain_id \<Rightarrow> CreateRWLayerOpts \<Rightarrow> err + rwlayer"
  ls_Map :: "(chain_id \<times> layer) list"
  ls_DriverName :: string
  is_Get :: "image_id \<Rightarrow> err + image"
  is_Create :: "string \<Rightarrow> err + image_id"
  is_SetBuiltLocally :: "image_id \<Rightarrow> err option"
  is_SetParent :: "image_id \<Rightarrow> image_id \<Rightarrow> err option"
  is_Children :: "image_id \<Rightarrow> image_id list"
  is_Map :: "(image_id \<times> image) list"
  rs_References :: "image_id \<Rightarrow> string list"
  rfs_ChainID :: "rootfs \<Rightarrow> chain_id"
  NewChildImage :: "image \<Rightarrow> 'c ChildConfig \<Rightarrow> string \<Rightarrow> image"
  json_Marshal :: "image \<Rightarrow> err + string"

text \<open>
  The calls an operation makes on its collaborators, in the order it makes them. A
  fallible acquisition records its outcome: the RW layer or layer obtained, or whether
  the call succeeded. \<open>ELayerRelease\<close> is \<open>layer.ReleaseAndLog\<close>, which releases
  a layer in the layer store; \<open>ELogImageEvent\<close> is \<open>LogImageEvent\<close> with the image
  ID, the reference name and the action; \<open>ELogCleanedUp\<close> is the log line that
  \<open>ReleaseLayer\<close> writes for each layer cleaned up.
\<close>

datatype event =
    EGetRWLayer string "rwlayer option"
  | EMount rwlayer string bool
  | ETarStream rwlayer "archive option"
  | EArchiveClose archive
  | EUnmount rwlayer
  | EReleaseRWLayer rwlayer
  | EImageGet image_id bool
  | ERegister archive chain_id "layer option"
  | ELayerRelease layer
  | EImageCreate string "image_id option"
  | ELogImageEvent string string string
  | ESetBuiltLocally image_id bool
  | ESetParent image_id image_id bool
  | ECreateRWLayer string chain_id CreateRWLayerOpts
  | ELogCleanedUp chain_id

section \<open>Committing a container (image_commit.go)\<close>

text \<open>
  The read-closer returned by \<open>exportContainerRw\<close>: the archive it reads from, the
  RW layer its closer unmounts and releases, and whether it has been closed.
\<close>

record read_closer =
  rc_archive :: archive
  rc_rwlayer :: rwlayer
  rc_closed :: bool

text \<open>
  Modelled from the spec: \<open>ioutils.NewReadCloserWrapper\<close> (pkg/ioutils, not part of
  the sources at hand) wraps a reader and a closer function so that the closer runs
  exactly once, at the first \<open>Close\<close>. The closer itself is the function literal of
  \<open>exportContainerRw\<close>: close the archive, unmount the RW layer, release it, and
  return the unmount error.
\<close>

definition rc_Close :: "'c stores \<Rightarrow> read_closer \<Rightarrow> event list \<times> read_closer \<times> err option" where
  "rc_Close s rc =
     (if rc_closed rc then ([], rc, None)
      else ([EArchiveClose (rc_archive rc), EUnmount (rc_rwlayer rc), EReleaseRWLayer (rc_rwlayer rc)],
            rc\<lparr>rc_closed := True\<rparr>,
            rw_Unmount s (rc_rwlayer rc)))"

definition exportContainerRw :: "'c stores \<Rightarrow> string \<Rightarrow> string \<Rightarrow> event list \<times> (err + read_closer)" where
  "exportContainerRw s ident mountLabel =
     (case ls_GetRWLayer s ident of
        Inl e \<Rightarrow> ([EGetRWLayer ident None], Inl e)
      | Inr rwl \<Rightarrow>
          (case rw_Mount s rwl mountLabel of
             Inl e \<Rightarrow>
               ([EGetRWLayer ident (Some rwl), EMount rwl mountLabel False,
                 EReleaseRWLayer rwl], Inl e)
           | Inr _ \<Rightarrow>
               (case rw_TarStream s rwl of
                  Inl e \<Rightarrow>
                    ([EGetRWLayer ident (Some rwl), EMount rwl mountLabel True,
                      ETarStream rwl None, EUnmount rwl, EReleaseRWLayer rwl], Inl e)
                | Inr a \<Rightarrow>
                    ([EGetRWLayer ident (Some rwl), EMount rwl mountLabel True,
                      ETarStream rwl (Some a)],
                     Inr \<lparr>rc_archive = a, rc_rwlayer = rwl, rc_closed = False\<rparr>))))"

text \<open>
  Modelled from the spec: \<open>image.NewRootFS()\<close> (daemon/internal/image, not part of
  the sources at hand) synthesises an empty root filesystem, a fresh chain with no layers.
\<close>

definition NewRootFS :: rootfs where
  "NewRootFS = \<lparr>rfs_Type = ''layers'', DiffIDs = []\<rparr>"

text \<open>Lines 32 to 41 of \<open>CommitImage\<close>: the parent image, synthesised when no parent
  ID is given.\<close>

definition resolveParent :: "'c stores \<Rightarrow> 'c CommitConfig \<Rightarrow> event list \<times> (err + image)" where
  "resolveParent s c =
     (if ParentImageID c = [] then ([], Inr \<lparr>RootFS = NewRootFS, img_other = []\<rparr>)
      else (case is_Get s (ParentImageID c) of
              Inl e \<Rightarrow> ([EImageGet (ParentImageID c) False], Inl e)
            | Inr p \<Rightarrow> ([EImageGet (ParentImageID c) True], Inr p)))"

text \<open>Lines 49 to 78: what runs between the registration of the layer and the deferred
  release of it.\<close>

definition createImage :: "'c stores \<Rightarrow> 'c CommitConfig \<Rightarrow> image \<Rightarrow> layer \<Rightarrow> event list \<times> (err + image_id)" where
  "createImage s c parent l =
     (let cc = \<lparr>cc_ContainerID = ContainerID c, cc_Author = Author c, cc_Comment = Comment c,
                cc_ContainerConfig = ContainerConfig c, cc_Config = Config c,
                cc_DiffID = l_DiffID l\<rparr>
      in case json_Marshal s (NewChildImage s parent cc (ContainerOS c)) of
           Inl e \<Rightarrow> ([], Inl e)
         | Inr config \<Rightarrow>
             (case is_Create s config of
                Inl e \<Rightarrow> ([EImageCreate config None], Inl e)
              | Inr ident \<Rightarrow>
                  (case is_SetBuiltLocally s ident of
                     Some e \<Rightarrow>
                       ([EImageCreate config (Some ident),
                         ELogImageEvent ident ident ''create'',
                         ESetBuiltLocally ident False], Inl e)
                   | None \<Rightarrow>
                       (if ParentImageID c \<noteq> [] then
                          (case is_SetParent s ident (ParentImageID c) of
                             Some e \<Rightarrow>
                               ([EImageCreate config (Some ident),
                                 ELogImageEvent ident ident ''create'',
                                 ESetBuiltLocally ident True,
                                 ESetParent ident (ParentImageID c) False], Inl e)
                           | None \<Rightarrow>
                               ([EImageCreate config (Some ident),
                                 ELogImageEvent ident ident ''create'',
                                 ESetBuiltLocally ident True,
                                 ESetParent ident (ParentImageID c) True], Inr ident))
                        else
                          ([EImageCreate config (Some ident),
                            ELogImageEvent ident ident ''create'',
                            ESetBuiltLocally ident True], Inr ident)))))"

text \<open>Lines 32 to 78: what runs between the export and the deferred close of the
  exported stream. The deferred \<open>layer.ReleaseAndLog\<close> runs when this part returns,
  once the layer has been registered.\<close>

definition registerAndCreate :: "'c stores \<Rightarrow> 'c CommitConfig \<Rightarrow> read_closer \<Rightarrow> event list \<times> (err + image_id)" where
  "registerAndCreate s c rwTar =
     (case resolveParent s c of
        (t1, Inl e) \<Rightarrow> (t1, Inl e)
      | (t1, Inr parent) \<Rightarrow>
          (case ls_Register s (rc_archive rwTar) (rfs_ChainID s (RootFS parent)) of
             Inl e \<Rightarrow>
               (t1 @ [ERegister (rc_archive rwTar) (rfs_ChainID s (RootFS parent)) None], Inl e)
           | Inr l \<Rightarrow>
               (case createImage s c parent l of
                  (t2, r) \<Rightarrow>
                    (t1 @ [ERegister (rc_archive rwTar) (rfs_ChainID s (RootFS parent)) (Some l)]
                        @ t2 @ [ELayerRelease l], r))))"

definition CommitImage :: "'c stores \<Rightarrow> ctx \<Rightarrow> 'c CommitConfig \<Rightarrow> event list \<times> (err + image_id)" where
  "CommitImage s ctx c =
     (case ctx 0 of
        Some e \<Rightarrow> ([], Inl e)
      | None \<Rightarrow>
          (case exportContainerRw s (ContainerID c) (ContainerMountLabel c) of
             (t1, Inl e) \<Rightarrow> (t1, Inl e)
           | (t1, Inr rwTar) \<Rightarrow>
               (case registerAndCreate s c rwTar of
                  (t2, r) \<Rightarrow> (t1 @ t2 @ fst (rc_Close s rwTar), r))))"


section \<open>The image service (service.go)\<close>

definition CreateLayerFromImage :: "'c stores \<Rightarrow> image option \<Rightarrow> string \<Rightarrow> CreateRWLayerOpts \<Rightarrow> event list \<times> (err + rwlayer)" where
  "CreateLayerFromImage s img layerName rwLayerOpts =
     (let layerID = (case img of None \<Rightarrow> [] | Some i \<Rightarrow> rfs_ChainID s (RootFS i))
      in ([ECreateRWLayer layerName layerID rwLayerOpts],
          ls_CreateRWLayer s layerName layerID rwLayerOpts))"

definition CreateLayer :: "'c stores \<Rightarrow> Container \<Rightarrow> string \<Rightarrow> event list \<times> (err + rwlayer)" where
  "CreateLayer s container initFunc =
     (let rwLayerOpts = \<lparr>o_MountLabel = ct_MountLabel container, o_InitFunc = initFunc,
                         o_StorageOpt = ct_StorageOpt container\<rparr>
      in if ct_ImageID container \<noteq> [] then
           (case is_Get s (ct_ImageID container) of
              Inl e \<Rightarrow> ([EImageGet (ct_ImageID container) False], Inl e)
            | Inr containerImg \<Rightarrow>
                (case CreateLayerFromImage s (Some containerImg) (ct_ID container) rwLayerOpts of
                   (t, r) \<Rightarrow> (EImageGet (ct_ImageID container) True # t, r)))
         else CreateLayerFromImage s None (ct_ID container) rwLayerOpts)"

text \<open>
  \<open>ReleaseLayer\<close> takes a \<open>container.RWLayer\<close>, which either is a
  \<open>layer.RWLayer\<close> or is a value of some other dynamic type (given by its name).
\<close>

datatype container_RWLayer = LayerRWLayer rwlayer | OtherRWLayer string

text \<open>The verb \<open>%q\<close> of the error message: the string between double quotes (for a
  driver name, which has no character to escape).\<close>

definition go_quote :: "string \<Rightarrow> string" where
  "go_quote x = CHR 0x22 # x @ [CHR 0x22]"

definition ReleaseLayer :: "'c stores \<Rightarrow> container_RWLayer \<Rightarrow> event list \<times> err option" where
  "ReleaseLayer s rwl =
     (case rwl of
        OtherRWLayer T \<Rightarrow> ([], Some (Errorf (''unexpected RWLayer type: '' @ T)))
      | LayerRWLayer l \<Rightarrow>
          (case ls_ReleaseRWLayer s l of
             (metaData, r) \<Rightarrow>
               (EReleaseRWLayer l # map ELogCleanedUp metaData,
                case r of
                  None \<Rightarrow> None
                | Some e \<Rightarrow>
                    (if \<not> errors_Is e ErrMountDoesNotExist \<and> \<not> errors_Is e OsErrNotExist
                     then Some (Wrapf (''driver '' @ go_quote (ls_DriverName s)
                                        @ '' failed to remove root filesystem'') e)
                     else None))))"

text \<open>
  Modelled from the spec: \<open>RootFS.Append\<close> (daemon/internal/image, not part of the
  sources at hand) adds a diff ID at the end of the ordered list of diff IDs of a root
  filesystem.
\<close>

definition rfs_Append :: "rootfs \<Rightarrow> diff_id \<Rightarrow> rootfs" where
  "rfs_Append r d = r\<lparr>DiffIDs := DiffIDs r @ [d]\<rparr>"

text \<open>
  The reference-count map of \<open>getLayerRefs\<close>, from chain IDs to Go \<open>int\<close>s (64 bits).
  \<open>layerRefs[chid]++\<close> reads 0 for a missing key.
\<close>

type_synonym layerRefs = "chain_id \<rightharpoonup> 64 word"

definition incr :: "layerRefs \<Rightarrow> chain_id \<Rightarrow> layerRefs" where
  "incr m k = m(k \<mapsto> (case m k of None \<Rightarrow> 0 | Some n \<Rightarrow> n) + 1)"

text \<open>The inner loop of \<open>getLayerRefs\<close>, over the diff IDs of one image.\<close>

fun countChain :: "'c stores \<Rightarrow> rootfs \<Rightarrow> layerRefs \<Rightarrow> diff_id list \<Rightarrow> layerRefs" where
  "countChain s rootFS refs [] = refs"
| "countChain s rootFS refs (d # ds) =
     (let rootFS' = rfs_Append rootFS d;
          chid = rfs_ChainID s rootFS'
      in countChain s rootFS' (incr refs chid) ds)"

text \<open>The outer loop, over the snapshot of the image store (in the order the map is
  iterated, which is any order).\<close>

fun getLayerRefs_loop :: "'c stores \<Rightarrow> layerRefs \<Rightarrow> (image_id \<times> image) list \<Rightarrow> layerRefs" where
  "getLayerRefs_loop s refs [] = refs"
| "getLayerRefs_loop s refs ((ident, img) # rest) =
     (if length (rs_References s ident) = 0 \<and> length (is_Children s ident) \<noteq> 0
      then getLayerRefs_loop s refs rest
      else getLayerRefs_loop s
             (countChain s ((RootFS img)\<lparr>DiffIDs := []\<rparr>) refs (DiffIDs (RootFS img))) rest)"

definition getLayerRefs :: "'c stores \<Rightarrow> layerRefs" where
  "getLayerRefs s = getLayerRefs_loop s Map.empty (is_Map s)"

text \<open>
  The loop of \<open>ImageDiskUsage\<close>: \<open>k\<close> counts the observations of the context made
  so far, \<open>allLayersSize\<close> is the \<open>int64\<close> accumulator. The result is the size, the
  error, and the number of observations of the context.
\<close>

fun ImageDiskUsage_loop :: "ctx \<Rightarrow> layerRefs \<Rightarrow> nat \<Rightarrow> 64 word \<Rightarrow> (chain_id \<times> layer) list \<Rightarrow> 64 word \<times> err option \<times> nat" where
  "ImageDiskUsage_loop ctx layerRefs k allLayersSize [] = (allLayersSize, None, k)"
| "ImageDiskUsage_loop ctx layerRefs k allLayersSize ((key, l) # rest) =
     (case ctx k of
        Some e \<Rightarrow> (allLayersSize, Some e, Suc k)
      | None \<Rightarrow>
          ImageDiskUsage_loop ctx layerRefs (Suc k)
            (if layerRefs (l_ChainID l) \<noteq> None then allLayersSize + l_DiffSize l
             else allLayersSize) rest)"

definition ImageDiskUsage :: "'c stores \<Rightarrow> ctx \<Rightarrow> 64 word \<times> err option \<times> nat" where
  "ImageDiskUsage s ctx = ImageDiskUsage_loop ctx (getLayerRefs s) 0 0 (ls_Map s)"

text \<open>
  \<open>UpdateConfig\<close> acts on the two transfer managers of the service, each a pointer
  that may be nil. \<open>SetConcurrency\<close> of either manager (package xfer) is a parameter.
  The arguments are Go \<open>int\<close>s.
\<close>

record ('d, 'u) managers =
  downloadManager :: "'d option"
  uploadManager :: "'u option"

datatype xfer_call = DownloadSetConcurrency "64 word" | UploadSetConcurrency "64 word"

definition UpdateConfig ::
  "(64 word \<Rightarrow> 'd \<Rightarrow> 'd) \<Rightarrow> (64 word \<Rightarrow> 'u \<Rightarrow> 'u) \<Rightarrow> ('d, 'u) managers \<Rightarrow> 64 word \<Rightarrow> 64 word
   \<Rightarrow> xfer_call list \<times> ('d, 'u) managers" where
  "UpdateConfig dSetConcurrency uSetConcurrency i maxDownloads maxUploads =
     (let (t1, i1) =
            (case downloadManager i of
               Some dm \<Rightarrow>
                 (if maxDownloads \<noteq> 0
                  then ([DownloadSetConcurrency maxDownloads],
                        i\<lparr>downloadManager := Some (dSetConcurrency maxDownloads dm)\<rparr>)
                  else ([], i))
             | None \<Rightarrow> ([], i));
          (t2, i2) =
            (case uploadManager i1 of
               Some um \<Rightarrow>
                 (if maxUploads \<noteq> 0
                  then ([UploadSetConcurrency maxUploads],
                        i1\<lparr>uploadManager := Some (uSetConcurrency maxUploads um)\<rparr>)
                  else ([], i1))
             | None \<Rightarrow> ([], i1))
      in (t1 @ t2, i2))"

section \<open>Resolving a chain of diff IDs (builder-next/worker/worker.go)\<close>

text \<open>
  \<open>getRef\<close> calls the cache manager's \<open>GetByBlob\<close>, a parameter here (with the
  options \<open>opts\<close> it is given), and releases the parent reference when it returns.
  Indexing an empty slice panics.
\<close>

type_synonym cache_ref = string

datatype cache_call = CGetByBlob diff_id "cache_ref option" | CRelease cache_ref

datatype 'a go_result = Panic string | Ret 'a

function getRef :: "(diff_id \<Rightarrow> cache_ref option \<Rightarrow> err + cache_ref) \<Rightarrow> diff_id list
    \<Rightarrow> cache_call list \<times> (err + cache_ref) go_result" where
  "getRef GetByBlob diffIDs =
     (if length diffIDs > 1 then
        (case getRef GetByBlob (take (length diffIDs - 1) diffIDs) of
           (t, Panic m) \<Rightarrow> (t, Panic m)
         | (t, Ret (Inl e)) \<Rightarrow> (t, Ret (Inl e))
         | (t, Ret (Inr parent)) \<Rightarrow>
             (t @ [CGetByBlob (diffIDs ! (length diffIDs - 1)) (Some parent), CRelease parent],
              Ret (GetByBlob (diffIDs ! (length diffIDs - 1)) (Some parent))))
      else if diffIDs = [] then ([], Panic ''index out of range [-1]'')
      else ([CGetByBlob (diffIDs ! (length diffIDs - 1)) None],
            Ret (GetByBlob (diffIDs ! (length diffIDs - 1)) None)))"
  by pat_completeness auto
termination
  by (relation "measure (\<lambda>(G, ds). length ds)") auto

declare getRef.simps [simp del]


section \<open>The operations as the specification words them\<close>

text \<open>
  Disk usage, in the words of the specification: the images kept are those that have a
  reference or have no children; the chain IDs referenced are those of every non-empty
  prefix of the diff IDs of a kept image (the walk along its root filesystem chain); the
  layers counted are the layers of the snapshot whose chain ID is referenced; the total
  is the \<open>int64\<close> sum of their sizes.
\<close>

fun nonemptyPrefixes :: "'a list \<Rightarrow> 'a list list" where
  "nonemptyPrefixes [] = []"
| "nonemptyPrefixes (x # xs) = [x] # map ((#) x) (nonemptyPrefixes xs)"

definition keptImages :: "'c stores \<Rightarrow> (image_id \<times> image) list" where
  "keptImages s =
     filter (\<lambda>(i, img). \<not> (rs_References s i = [] \<and> is_Children s i \<noteq> [])) (is_Map s)"

definition chainIDsOf :: "'c stores \<Rightarrow> image \<Rightarrow> chain_id list" where
  "chainIDsOf s img =
     map (\<lambda>p. rfs_ChainID s ((RootFS img)\<lparr>DiffIDs := p\<rparr>)) (nonemptyPrefixes (DiffIDs (RootFS img)))"

definition referencedChainIDs :: "'c stores \<Rightarrow> chain_id list" where
  "referencedChainIDs s = concat (map (\<lambda>(i, img). chainIDsOf s img) (keptImages s))"

definition countedLayers :: "'c stores \<Rightarrow> (chain_id \<times> layer) list \<Rightarrow> layer list" where
  "countedLayers s ls = filter (\<lambda>l. l_ChainID l \<in> set (referencedChainIDs s)) (map snd ls)"

definition diskUsageTotal :: "'c stores \<Rightarrow> 64 word" where
  "diskUsageTotal s = sum_list (map l_DiffSize (countedLayers s (ls_Map s)))"

text \<open>
  Chain resolution, in the words of the specification: build the chain bottom-up from
  the root, obtaining the reference of each position from the reference of the position
  before it, which is released once the next one has been asked for. The second argument
  is the outcome for the position before.
\<close>

fun getRef_bottom_up :: "(diff_id \<Rightarrow> cache_ref option \<Rightarrow> err + cache_ref) \<Rightarrow> err + cache_ref
    \<Rightarrow> diff_id list \<Rightarrow> cache_call list \<times> (err + cache_ref)" where
  "getRef_bottom_up GetByBlob r [] = ([], r)"
| "getRef_bottom_up GetByBlob (Inl e) (d # ds) = ([], Inl e)"
| "getRef_bottom_up GetByBlob (Inr parent) (d # ds) =
     (case getRef_bottom_up GetByBlob (GetByBlob d (Some parent)) ds of
        (t, r) \<Rightarrow> (CGetByBlob d (Some parent) # CRelease parent # t, r))"

fun blobCall :: "cache_call \<Rightarrow> diff_id list" where
  "blobCall (CGetByBlob d p) = [d]"
| "blobCall (CRelease r) = []"

definition blobCalls :: "cache_call list \<Rightarrow> diff_id list" where
  "blobCalls t = concat (map blobCall t)"

section \<open>Observations on traces\<close>

text \<open>The "create" lifecycle events of a trace, and the IDs of the image records that
  \<open>imageStore.Create\<close> returned in it.\<close>

fun isCreateEvent :: "event \<Rightarrow> bool" where
  "isCreateEvent (ELogImageEvent i n a) = (a = ''create'')"
| "isCreateEvent _ = False"

definition createEvents :: "event list \<Rightarrow> event list" where
  "createEvents t = filter isCreateEvent t"

fun createdID :: "event \<Rightarrow> image_id list" where
  "createdID (EImageCreate config (Some i)) = [i]"
| "createdID _ = []"

definition createdIDs :: "event list \<Rightarrow> image_id list" where
  "createdIDs t = concat (map createdID t)"

text \<open>
  The RW-layer mounts and RW-layer references a trace leaves open: each successful
  \<open>Mount\<close> counts one mount until an \<open>Unmount\<close>, each successful \<open>GetRWLayer\<close>
  counts one reference until a \<open>ReleaseRWLayer\<close>.
\<close>

fun mountDelta :: "rwlayer \<Rightarrow> event \<Rightarrow> int" where
  "mountDelta rw (EMount r lbl ok) = (if r = rw \<and> ok then 1 else 0)"
| "mountDelta rw (EUnmount r) = (if r = rw then - 1 else 0)"
| "mountDelta rw _ = 0"

fun refDelta :: "rwlayer \<Rightarrow> event \<Rightarrow> int" where
  "refDelta rw (EGetRWLayer n r) = (if r = Some rw then 1 else 0)"
| "refDelta rw (EReleaseRWLayer r) = (if r = rw then - 1 else 0)"
| "refDelta rw _ = 0"

definition mountsHeld :: "rwlayer \<Rightarrow> event list \<Rightarrow> int" where
  "mountsHeld rw t = sum_list (map (mountDelta rw) t)"

definition refsHeld :: "rwlayer \<Rightarrow> event list \<Rightarrow> int" where
  "refsHeld rw t = sum_list (map (refDelta rw) t)"

text \<open>The layers a trace obtained from \<open>Register\<close>, and the layers it released.\<close>

fun registeredLayer :: "event \<Rightarrow> layer list" where
  "registeredLayer (ERegister a ch (Some l)) = [l]"
| "registeredLayer _ = []"

fun releasedLayer :: "event \<Rightarrow> layer list" where
  "releasedLayer (ELayerRelease l) = [l]"
| "releasedLayer _ = []"

definition registered :: "event list \<Rightarrow> layer list" where
  "registered t = concat (map registeredLayer t)"

definition released :: "event list \<Rightarrow> layer list" where
  "released t = concat (map releasedLayer t)"

section \<open>Example stores\<close>

text \<open>
  A store in which every call succeeds. It holds the parent image \<open>P\<close> with the chain
  \<open>[d1]\<close>; the chain ID of a root filesystem is written as the concatenation of its
  diff IDs, and the encoding of an image as that of its root filesystem.
\<close>

definition ctxLive :: ctx where
  "ctxLive k = None"

definition ctxCancelled :: ctx where
  "ctxCancelled k = Some ContextCanceled"

definition stores0 :: "unit stores" where
  "stores0 =
     \<lparr>ls_GetRWLayer = (\<lambda>n. Inr (''rw-'' @ n)),
      rw_Mount = (\<lambda>r lbl. Inr ''/mnt''),
      rw_TarStream = (\<lambda>r. Inr ''tar''),
      rw_Unmount = (\<lambda>r. None),
      ls_ReleaseRWLayer = (\<lambda>r. ([], None)),
      ls_Register = (\<lambda>a ch. Inr \<lparr>l_ChainID = ch @ ''d2'', l_DiffID = ''d2'', l_DiffSize = 10\<rparr>),
      ls_CreateRWLayer = (\<lambda>n ch opts. Inr n),
      ls_Map = [],
      ls_DriverName = ''overlay2'',
      is_Get = (\<lambda>i. if i = ''P''
                      then Inr \<lparr>RootFS = \<lparr>rfs_Type = ''layers'', DiffIDs = [''d1'']\<rparr>, img_other = []\<rparr>
                      else Inl ErrImageNotFound),
      is_Create = (\<lambda>config. Inr (''sha-'' @ config)),
      is_SetBuiltLocally = (\<lambda>i. None),
      is_SetParent = (\<lambda>i p. None),
      is_Children = (\<lambda>i. []),
      is_Map = [],
      rs_References = (\<lambda>i. []),
      rfs_ChainID = (\<lambda>r. concat (DiffIDs r)),
      NewChildImage = (\<lambda>p cc os. \<lparr>RootFS = rfs_Append (RootFS p) (cc_DiffID cc), img_other = cc_Comment cc\<rparr>),
      json_Marshal = (\<lambda>i. Inr (concat (DiffIDs (RootFS i))))\<rparr>"

definition commit0 :: "unit CommitConfig" where
  "commit0 =
     \<lparr>Author = ''a'', Comment = ''c'', Config = (), ContainerConfig = (),
      ContainerID = ''ctr'', ContainerMountLabel = ''lbl'', ContainerOS = ''linux'',
      ParentImageID = ''P''\<rparr>"

text \<open>The same store, except that \<open>SetBuiltLocally\<close> fails.\<close>

definition storesNoFlag :: "unit stores" where
  "storesNoFlag = stores0\<lparr>is_SetBuiltLocally := (\<lambda>i. Some (Errorf ''write failed''))\<rparr>"

text \<open>The same store, except that \<open>SetParent\<close> fails.\<close>

definition storesNoLink :: "unit stores" where
  "storesNoLink = stores0\<lparr>is_SetParent := (\<lambda>i p. Some (Errorf ''link failed''))\<rparr>"

text \<open>The same store, except that \<open>TarStream\<close> fails.\<close>

definition storesNoTar :: "unit stores" where
  "storesNoTar = stores0\<lparr>rw_TarStream := (\<lambda>r. Inl (Errorf ''tar failed''))\<rparr>"

text \<open>Stores whose \<open>ReleaseRWLayer\<close> fails: because the mount is gone already, and
  for another reason.\<close>

definition storesMountGone :: "unit stores" where
  "storesMountGone =
     stores0\<lparr>ls_ReleaseRWLayer := (\<lambda>r. ([], Some (Wrapf ''unmount'' ErrMountDoesNotExist)))\<rparr>"

definition storesBusy :: "unit stores" where
  "storesBusy = stores0\<lparr>ls_ReleaseRWLayer := (\<lambda>r. ([], Some (Errorf ''device busy'')))\<rparr>"

text \<open>A container without an image, and a container whose image is not in the store.\<close>

definition containerNoImage :: Container where
  "containerNoImage =
     \<lparr>ct_ID = ''c1'', ct_ImageID = [], ct_MountLabel = ''lbl'', ct_StorageOpt = []\<rparr>"

definition containerLostImage :: Container where
  "containerLostImage =
     \<lparr>ct_ID = ''c2'', ct_ImageID = ''Q'', ct_MountLabel = ''lbl'', ct_StorageOpt = []\<rparr>"

text \<open>Transfer managers that are their concurrency bound.\<close>

definition setBound :: "64 word \<Rightarrow> nat \<Rightarrow> nat" where
  "setBound n m = unat n"

definition managers0 :: "(nat, nat) managers" where
  "managers0 = \<lparr>downloadManager = Some 3, uploadManager = Some 5\<rparr>"

text \<open>Contexts that are done from the \<open>n\<close>-th observation on.\<close>

definition ctxDoneFrom :: "nat \<Rightarrow> ctx" where
  "ctxDoneFrom n k = (if n \<le> k then Some ContextCanceled else None)"

text \<open>
  A store for disk usage: the images \<open>A\<close> and \<open>B\<close> are tagged and share the layer
  \<open>x\<close>; the image \<open>I\<close> is untagged and has a child, so it is skipped and its layer
  \<open>xw\<close> is referenced by no kept image; the layer \<open>q\<close> belongs to no image. In
  \<open>storesHuge\<close> the two layers of the one image hold 2^62 bytes each.
\<close>

definition imageOf :: "diff_id list \<Rightarrow> image" where
  "imageOf ds = \<lparr>RootFS = \<lparr>rfs_Type = ''layers'', DiffIDs = ds\<rparr>, img_other = []\<rparr>"

definition layerOf :: "chain_id \<Rightarrow> 64 word \<Rightarrow> chain_id \<times> layer" where
  "layerOf ch n = (ch, \<lparr>l_ChainID = ch, l_DiffID = ch, l_DiffSize = n\<rparr>)"

definition storesDU :: "unit stores" where
  "storesDU =
     stores0\<lparr>is_Map := [(''A'', imageOf [''x'', ''y'']), (''B'', imageOf [''x'', ''z'']),
                        (''I'', imageOf [''x'', ''w''])],
             rs_References := (\<lambda>i. if i = ''A'' \<or> i = ''B'' then [''repo:tag''] else []),
             is_Children := (\<lambda>i. if i = ''I'' then [''A''] else []),
             ls_Map := [layerOf ''x'' 5, layerOf ''xy'' 7, layerOf ''xz'' 11,
                        layerOf ''xw'' 100, layerOf ''q'' 1000]\<rparr>"

definition storesHuge :: "unit stores" where
  "storesHuge =
     stores0\<lparr>is_Map := [(''A'', imageOf [''x'', ''y''])],
             rs_References := (\<lambda>i. [''repo:tag'']),
             ls_Map := [layerOf ''x'' 0x4000000000000000, layerOf ''xy'' 0x4000000000000000]\<rparr>"

text \<open>A cache manager that fails for the blob \<open>bad\<close>.\<close>

definition blobRef :: "diff_id \<Rightarrow> cache_ref option \<Rightarrow> err + cache_ref" where
  "blobRef d p =
     (if d = ''bad'' then Inl (Errorf ''no blob'')
      else Inr (case p of None \<Rightarrow> d | Some r \<Rightarrow> r @ d))"

section \<open>Facts about traces\<close>

lemma createEvents_append: "createEvents (t @ u) = createEvents t @ createEvents u"
  by (simp add: createEvents_def)

lemma createdIDs_append: "createdIDs (t @ u) = createdIDs t @ createdIDs u"
  by (simp add: createdIDs_def)

lemma mountsHeld_append: "mountsHeld rw (t @ u) = mountsHeld rw t + mountsHeld rw u"
  by (simp add: mountsHeld_def)

lemma refsHeld_append: "refsHeld rw (t @ u) = refsHeld rw t + refsHeld rw u"
  by (simp add: refsHeld_def)

lemma registered_append: "registered (t @ u) = registered t @ registered u"
  by (simp add: registered_def)

lemma released_append: "released (t @ u) = released t @ released u"
  by (simp add: released_def)

lemma trace_Nil:
  "createEvents [] = []" "createdIDs [] = []" "mountsHeld rw [] = 0" "refsHeld rw [] = 0"
  "registered [] = []" "released [] = []"
  by (simp_all add: createEvents_def createdIDs_def mountsHeld_def refsHeld_def
        registered_def released_def)

lemma trace_Cons:
  "createEvents (e # t) = (if isCreateEvent e then e # createEvents t else createEvents t)"
  "createdIDs (e # t) = createdID e @ createdIDs t"
  "mountsHeld rw (e # t) = mountDelta rw e + mountsHeld rw t"
  "refsHeld rw (e # t) = refDelta rw e + refsHeld rw t"
  "registered (e # t) = registeredLayer e @ registered t"
  "released (e # t) = releasedLayer e @ released t"
  by (simp_all add: createEvents_def createdIDs_def mountsHeld_def refsHeld_def
        registered_def released_def)

lemmas trace_append = createEvents_append createdIDs_append mountsHeld_append
  refsHeld_append registered_append released_append

subsection \<open>The export\<close>

lemma exportContainerRw_cases:
  "(\<exists>e. exportContainerRw s n lbl = ([EGetRWLayer n None], Inl e))
   \<or> (\<exists>e rw. exportContainerRw s n lbl =
         ([EGetRWLayer n (Some rw), EMount rw lbl False, EReleaseRWLayer rw], Inl e))
   \<or> (\<exists>e rw. exportContainerRw s n lbl =
         ([EGetRWLayer n (Some rw), EMount rw lbl True, ETarStream rw None, EUnmount rw,
           EReleaseRWLayer rw], Inl e))
   \<or> (\<exists>a rw. exportContainerRw s n lbl =
         ([EGetRWLayer n (Some rw), EMount rw lbl True, ETarStream rw (Some a)],
          Inr \<lparr>rc_archive = a, rc_rwlayer = rw, rc_closed = False\<rparr>))"
  by (simp add: exportContainerRw_def split: sum.splits)

lemma exportContainerRw_failure_balanced:
  assumes "exportContainerRw s n lbl = (t, Inl e)"
  shows "mountsHeld rw t = 0" and "refsHeld rw t = 0"
  using assms exportContainerRw_cases [of s n lbl]
  by (auto simp: mountsHeld_def refsHeld_def)

lemma exportContainerRw_success:
  assumes "exportContainerRw s n lbl = (t, Inr rc)"
  shows "\<not> rc_closed rc"
    and "t = [EGetRWLayer n (Some (rc_rwlayer rc)), EMount (rc_rwlayer rc) lbl True,
              ETarStream (rc_rwlayer rc) (Some (rc_archive rc))]"
  using assms exportContainerRw_cases [of s n lbl] by auto

lemma rc_Close_open:
  "\<not> rc_closed rc \<Longrightarrow>
     rc_Close s rc = ([EArchiveClose (rc_archive rc), EUnmount (rc_rwlayer rc),
                       EReleaseRWLayer (rc_rwlayer rc)],
                      rc\<lparr>rc_closed := True\<rparr>, rw_Unmount s (rc_rwlayer rc))"
  by (simp add: rc_Close_def)

lemma rc_Close_closed: "rc_closed rc \<Longrightarrow> rc_Close s rc = ([], rc, None)"
  by (simp add: rc_Close_def)

subsection \<open>The parent, the registration and the image record\<close>

lemma resolveParent_quiet:
  assumes "resolveParent s c = (t, r)"
  shows "createEvents t = []" and "createdIDs t = []" and "registered t = []"
    and "released t = []" and "mountsHeld rw t = 0" and "refsHeld rw t = 0"
  using assms
  by (auto simp: resolveParent_def createEvents_def createdIDs_def registered_def
        released_def mountsHeld_def refsHeld_def split: if_splits sum.splits)

lemma createImage_events:
  assumes "createImage s c p l = (t, r)"
  shows "createEvents t = map (\<lambda>i. ELogImageEvent i i ''create'') (createdIDs t)"
    and "length (createdIDs t) \<le> 1"
    and "r = Inr i \<Longrightarrow> createdIDs t = [i]"
  using assms
  by (auto simp: createImage_def createEvents_def createdIDs_def Let_def
        split: sum.splits option.splits if_splits)

lemma createImage_quiet:
  assumes "createImage s c p l = (t, r)"
  shows "registered t = []" and "released t = []"
    and "mountsHeld rw t = 0" and "refsHeld rw t = 0"
  using assms
  by (auto simp: createImage_def registered_def released_def mountsHeld_def refsHeld_def
        Let_def split: sum.splits option.splits if_splits)

lemma createImage_failures:
  assumes "createImage s c p l = (t, r)"
  shows "ESetBuiltLocally i False \<in> set t \<Longrightarrow>
           isl r \<and> createEvents t = [ELogImageEvent i i ''create'']"
    and "ESetParent i q False \<in> set t \<Longrightarrow>
           isl r \<and> createEvents t = [ELogImageEvent i i ''create'']"
    and "EImageCreate config (Some i) \<in> set t \<Longrightarrow> is_SetBuiltLocally s i = Some e \<Longrightarrow>
           r = Inl e \<and> ESetBuiltLocally i False \<in> set t"
    and "EImageCreate config (Some i) \<in> set t \<Longrightarrow> is_SetBuiltLocally s i = None \<Longrightarrow>
           ParentImageID c \<noteq> [] \<Longrightarrow> is_SetParent s i (ParentImageID c) = Some e \<Longrightarrow>
           r = Inl e \<and> ESetParent i (ParentImageID c) False \<in> set t"
  using assms
  by (auto simp: createImage_def createEvents_def Let_def
        split: sum.splits option.splits if_splits)

lemma registerAndCreate_shape:
  assumes "registerAndCreate s c rc = (t, r)"
  obtains (NoParent) e where "resolveParent s c = (t, Inl e)" and "r = Inl e"
  | (NotRegistered) t1 p e where "resolveParent s c = (t1, Inr p)" and "r = Inl e"
      and "t = t1 @ [ERegister (rc_archive rc) (rfs_ChainID s (RootFS p)) None]"
  | (Registered) t1 p l t2 where "resolveParent s c = (t1, Inr p)"
      and "createImage s c p l = (t2, r)"
      and "t = t1 @ [ERegister (rc_archive rc) (rfs_ChainID s (RootFS p)) (Some l)]
                 @ t2 @ [ELayerRelease l]"
  using assms
  by (auto simp: registerAndCreate_def split: sum.splits prod.splits)

lemma registerAndCreate_events:
  assumes "registerAndCreate s c rc = (t, r)"
  shows "createEvents t = map (\<lambda>i. ELogImageEvent i i ''create'') (createdIDs t)"
    and "length (createdIDs t) \<le> 1"
    and "r = Inr i \<Longrightarrow> createdIDs t = [i]"
proof -
  have "createEvents t = map (\<lambda>i. ELogImageEvent i i ''create'') (createdIDs t)
        \<and> length (createdIDs t) \<le> 1 \<and> (r = Inr i \<longrightarrow> createdIDs t = [i])"
    using assms
  proof (cases rule: registerAndCreate_shape)
    case (NoParent e)
    then show ?thesis by (simp add: resolveParent_quiet)
  next
    case (NotRegistered t1 p e)
    then show ?thesis
      by (simp add: trace_append trace_Cons trace_Nil resolveParent_quiet)
  next
    case (Registered t1 p l t2)
    then show ?thesis
      using createImage_events [OF Registered(2)]
      by (simp add: trace_append trace_Cons trace_Nil resolveParent_quiet)
  qed
  then show "createEvents t = map (\<lambda>i. ELogImageEvent i i ''create'') (createdIDs t)"
    and "length (createdIDs t) \<le> 1"
    and "r = Inr i \<Longrightarrow> createdIDs t = [i]"
    by simp_all
qed

lemma registerAndCreate_balanced:
  assumes "registerAndCreate s c rc = (t, r)"
  shows "mountsHeld rw t = 0" and "refsHeld rw t = 0"
proof -
  have "mountsHeld rw t = 0 \<and> refsHeld rw t = 0"
    using assms
  proof (cases rule: registerAndCreate_shape)
    case (NoParent e)
    then show ?thesis by (simp add: resolveParent_quiet)
  next
    case (NotRegistered t1 p e)
    then show ?thesis
      by (simp add: trace_append trace_Cons trace_Nil resolveParent_quiet)
  next
    case (Registered t1 p l t2)
    then show ?thesis
      using createImage_quiet [OF Registered(2)]
      by (simp add: trace_append trace_Cons trace_Nil resolveParent_quiet)
  qed
  then show "mountsHeld rw t = 0" and "refsHeld rw t = 0" by simp_all
qed

lemma registerAndCreate_layer:
  assumes "registerAndCreate s c rc = (t, r)"
  shows "released t = registered t" and "length (registered t) \<le> 1"
    and "ERegister a ch (Some l) \<in> set t \<Longrightarrow>
           \<exists>pre post. t = pre @ ERegister a ch (Some l) # post \<and> ELayerRelease l \<in> set post"
proof -
  have "released t = registered t \<and> length (registered t) \<le> 1
        \<and> (ERegister a ch (Some l) \<in> set t \<longrightarrow>
           (\<exists>pre post. t = pre @ ERegister a ch (Some l) # post \<and> ELayerRelease l \<in> set post))"
    using assms
  proof (cases rule: registerAndCreate_shape)
    case (NoParent e)
    then show ?thesis
      by (auto simp: resolveParent_quiet resolveParent_def split: if_splits sum.splits)
  next
    case (NotRegistered t1 p e)
    then show ?thesis
      by (auto simp: registered_append released_append resolveParent_quiet
            resolveParent_def registered_def released_def split: if_splits sum.splits)
  next
    case (Registered t1 p l' t2)
    have t1: "ERegister a ch (Some l) \<notin> set t1"
      using Registered(1) by (auto simp: resolveParent_def split: if_splits sum.splits)
    have t2: "ERegister a ch (Some l) \<notin> set t2"
      using Registered(2)
      by (auto simp: createImage_def Let_def split: sum.splits option.splits if_splits)
    have "released t = registered t \<and> length (registered t) \<le> 1"
      using Registered createImage_quiet [OF Registered(2)]
      by (simp add: trace_append trace_Cons trace_Nil resolveParent_quiet)
    moreover have "\<exists>pre post. t = pre @ ERegister a ch (Some l) # post \<and> ELayerRelease l \<in> set post"
      if "ERegister a ch (Some l) \<in> set t"
    proof -
      from that t1 t2 Registered(3)
      have eq: "ERegister a ch (Some l) = ERegister (rc_archive rc) (rfs_ChainID s (RootFS p)) (Some l')"
        by auto
      then have "t = t1 @ ERegister a ch (Some l) # (t2 @ [ELayerRelease l])"
        using Registered(3) by simp
      then show ?thesis by (metis in_set_conv_decomp append.right_neutral append_Cons)
    qed
    ultimately show ?thesis by blast
  qed
  then show "released t = registered t" and "length (registered t) \<le> 1"
    and "ERegister a ch (Some l) \<in> set t \<Longrightarrow>
           \<exists>pre post. t = pre @ ERegister a ch (Some l) # post \<and> ELayerRelease l \<in> set post"
    by simp_all
qed


subsection \<open>The whole commit\<close>

lemma CommitImage_shape:
  assumes "CommitImage s ctx c = (t, r)"
  obtains (Cancelled) e where "ctx 0 = Some e" and "t = []" and "r = Inl e"
  | (NoExport) e where "ctx 0 = None" and "r = Inl e"
      and "exportContainerRw s (ContainerID c) (ContainerMountLabel c) = (t, Inl e)"
  | (Exported) t1 rc t2 where "ctx 0 = None"
      and "exportContainerRw s (ContainerID c) (ContainerMountLabel c) = (t1, Inr rc)"
      and "registerAndCreate s c rc = (t2, r)"
      and "t = t1 @ t2 @ fst (rc_Close s rc)"
  using assms
  by (auto simp: CommitImage_def split: option.splits sum.splits prod.splits)

lemma exportContainerRw_quiet:
  assumes "exportContainerRw s n lbl = (t, r)"
  shows "createEvents t = []" and "createdIDs t = []" and "registered t = []"
    and "released t = []" and "ERegister a ch ol \<notin> set t"
  using assms exportContainerRw_cases [of s n lbl]
  by (auto simp: trace_Cons trace_Nil)

lemma rc_Close_quiet:
  "createEvents (fst (rc_Close s rc)) = []"
  "createdIDs (fst (rc_Close s rc)) = []"
  "registered (fst (rc_Close s rc)) = []"
  "released (fst (rc_Close s rc)) = []"
  "ERegister a ch ol \<notin> set (fst (rc_Close s rc))"
  by (simp_all add: rc_Close_def trace_Cons trace_Nil)

lemma export_then_close_balanced:
  assumes "exportContainerRw s n lbl = (t, Inr rc)"
  shows "mountsHeld rw (t @ fst (rc_Close s rc)) = 0"
    and "refsHeld rw (t @ fst (rc_Close s rc)) = 0"
    and "mountsHeld (rc_rwlayer rc) t = 1" and "refsHeld (rc_rwlayer rc) t = 1"
  using exportContainerRw_success [OF assms]
  by (simp_all add: rc_Close_open trace_append trace_Cons trace_Nil)

lemma CommitImage_balanced:
  "mountsHeld rw (fst (CommitImage s ctx c)) = 0 \<and> refsHeld rw (fst (CommitImage s ctx c)) = 0"
proof -
  obtain t r where run: "CommitImage s ctx c = (t, r)" by (cases "CommitImage s ctx c")
  then have "mountsHeld rw t = 0 \<and> refsHeld rw t = 0"
  proof (cases rule: CommitImage_shape)
    case (Cancelled e)
    then show ?thesis by (simp add: trace_Nil)
  next
    case (NoExport e)
    then show ?thesis by (simp add: exportContainerRw_failure_balanced)
  next
    case (Exported t1 rc t2)
    then show ?thesis
      using export_then_close_balanced(1,2) [OF Exported(2), of rw]
        registerAndCreate_balanced [OF Exported(3), of rw]
      by (simp add: trace_append)
  qed
  with run show ?thesis by simp
qed

text \<open>
  Claim C5. When the context is already cancelled at entry, \<open>CommitImage\<close> returns the
  context's error at once and calls none of its collaborators: the trace is empty, so
  no RW layer is touched, no layer is registered and no image record is created.
\<close>

theorem CommitImage_cancelled_at_entry:
  "ctx 0 = Some e \<Longrightarrow> CommitImage s ctx c = ([], Inl e)"
  by (simp add: CommitImage_def)

lemma CommitImage_record_part:
  assumes run: "CommitImage s ctx c = (t, r)" and ev: "ev \<in> set t"
    and kind: "(\<exists>i b. ev = ESetBuiltLocally i b) \<or> (\<exists>i q b. ev = ESetParent i q b)
               \<or> (\<exists>config oi. ev = EImageCreate config oi)"
  obtains p l t2 where "createImage s c p l = (t2, r)" and "ev \<in> set t2"
    and "createEvents t = createEvents t2" and "set t2 \<subseteq> set t"
  using run
proof (cases rule: CommitImage_shape)
  case (Cancelled e)
  with ev show ?thesis by simp
next
  case (NoExport e)
  with ev kind show ?thesis
    using exportContainerRw_cases [of s "ContainerID c" "ContainerMountLabel c"] by auto
next
  case (Exported t1 rc t2)
  have out1: "ev \<notin> set t1"
    using kind Exported(2) exportContainerRw_cases [of s "ContainerID c" "ContainerMountLabel c"]
    by auto
  have out3: "ev \<notin> set (fst (rc_Close s rc))"
    using kind by (auto simp: rc_Close_def)
  from ev out1 out3 Exported(4) have in2: "ev \<in> set t2" by auto
  have ce: "createEvents t = createEvents t2"
    using Exported(4)
    by (simp add: trace_append exportContainerRw_quiet [OF Exported(2)] rc_Close_quiet)
  from Exported(3) show ?thesis
  proof (cases rule: registerAndCreate_shape)
    case (NoParent e)
    with in2 kind show ?thesis
      by (auto simp: resolveParent_def split: if_splits sum.splits)
  next
    case (NotRegistered u p e)
    with in2 kind show ?thesis
      by (auto simp: resolveParent_def split: if_splits sum.splits)
  next
    case (Registered u p l v)
    have "ev \<notin> set u"
      using kind Registered(1) by (auto simp: resolveParent_def split: if_splits sum.splits)
    with in2 kind Registered(3) have "ev \<in> set v" by auto
    moreover have "createEvents t2 = createEvents v"
      using Registered(3) resolveParent_quiet(1) [OF Registered(1)]
      by (simp add: trace_append trace_Cons trace_Nil)
    moreover have "set v \<subseteq> set t"
      using Registered(3) Exported(4) by auto
    ultimately show ?thesis using that [OF Registered(2)] ce by simp
  qed
qed

text \<open>
  Claim C1, as amended. The "create" events of a commit are exactly one event for each
  image record that \<open>imageStore.Create\<close> returned, of which there is at most one: one
  event when \<open>Create\<close> succeeded, none when the commit failed before or at \<open>Create\<close>.
  Every successful commit has therefore emitted exactly one event, for the ID it returns.
  A failed \<open>SetBuiltLocally\<close> or \<open>SetParent\<close> in the trace means that the commit
  returns an error and that the event for that image has been emitted; and once the
  record is created, a failure of \<open>SetBuiltLocally\<close>, or of \<open>SetParent\<close> after it,
  is the error the commit returns.
\<close>

theorem CommitImage_create_event_iff_created:
  "createEvents (fst (CommitImage s ctx c)) =
     map (\<lambda>i. ELogImageEvent i i ''create'') (createdIDs (fst (CommitImage s ctx c)))
   \<and> length (createdIDs (fst (CommitImage s ctx c))) \<le> 1
   \<and> (\<forall>i. snd (CommitImage s ctx c) = Inr i \<longrightarrow>
         createEvents (fst (CommitImage s ctx c)) = [ELogImageEvent i i ''create''])
   \<and> (\<forall>i. ESetBuiltLocally i False \<in> set (fst (CommitImage s ctx c)) \<longrightarrow>
         isl (snd (CommitImage s ctx c))
         \<and> createEvents (fst (CommitImage s ctx c)) = [ELogImageEvent i i ''create''])
   \<and> (\<forall>i p. ESetParent i p False \<in> set (fst (CommitImage s ctx c)) \<longrightarrow>
         isl (snd (CommitImage s ctx c))
         \<and> createEvents (fst (CommitImage s ctx c)) = [ELogImageEvent i i ''create''])
   \<and> (\<forall>config i e. EImageCreate config (Some i) \<in> set (fst (CommitImage s ctx c))
           \<and> is_SetBuiltLocally s i = Some e \<longrightarrow>
         snd (CommitImage s ctx c) = Inl e
         \<and> ESetBuiltLocally i False \<in> set (fst (CommitImage s ctx c)))
   \<and> (\<forall>config i e. EImageCreate config (Some i) \<in> set (fst (CommitImage s ctx c))
           \<and> is_SetBuiltLocally s i = None \<and> ParentImageID c \<noteq> []
           \<and> is_SetParent s i (ParentImageID c) = Some e \<longrightarrow>
         snd (CommitImage s ctx c) = Inl e
         \<and> ESetParent i (ParentImageID c) False \<in> set (fst (CommitImage s ctx c)))"
proof -
  obtain t r where run: "CommitImage s ctx c = (t, r)" by (cases "CommitImage s ctx c")
  then have counted: "createEvents t = map (\<lambda>i. ELogImageEvent i i ''create'') (createdIDs t)
      \<and> length (createdIDs t) \<le> 1 \<and> (\<forall>i. r = Inr i \<longrightarrow> createdIDs t = [i])"
  proof (cases rule: CommitImage_shape)
    case (Cancelled e)
    then show ?thesis by (simp add: trace_Nil)
  next
    case (NoExport e)
    then show ?thesis by (simp add: exportContainerRw_quiet)
  next
    case (Exported t1 rc t2)
    then show ?thesis
      using registerAndCreate_events [OF Exported(3)]
      by (simp add: trace_append exportContainerRw_quiet rc_Close_quiet)
  qed
  have flag: "isl r \<and> createEvents t = [ELogImageEvent i i ''create'']"
    if ev: "ESetBuiltLocally i False \<in> set t" for i
  proof -
    obtain p l t2 where "createImage s c p l = (t2, r)" "ESetBuiltLocally i False \<in> set t2"
      "createEvents t = createEvents t2"
      by (rule CommitImage_record_part [OF run ev]) auto
    then show ?thesis using createImage_failures(1) by simp
  qed
  have link: "isl r \<and> createEvents t = [ELogImageEvent i i ''create'']"
    if ev: "ESetParent i q False \<in> set t" for i q
  proof -
    obtain p l t2 where "createImage s c p l = (t2, r)" "ESetParent i q False \<in> set t2"
      "createEvents t = createEvents t2"
      by (rule CommitImage_record_part [OF run ev]) auto
    then show ?thesis using createImage_failures(2) by simp
  qed
  have flagFails: "r = Inl e \<and> ESetBuiltLocally i False \<in> set t"
    if ev: "EImageCreate config (Some i) \<in> set t" and f: "is_SetBuiltLocally s i = Some e"
    for config i e
  proof -
    obtain p l t2 where a: "createImage s c p l = (t2, r)" "EImageCreate config (Some i) \<in> set t2"
      "set t2 \<subseteq> set t"
      by (rule CommitImage_record_part [OF run ev]) auto
    from createImage_failures(3) [OF a(1,2) f] a(3) show ?thesis by auto
  qed
  have linkFails: "r = Inl e \<and> ESetParent i (ParentImageID c) False \<in> set t"
    if ev: "EImageCreate config (Some i) \<in> set t" and f: "is_SetBuiltLocally s i = None"
      "ParentImageID c \<noteq> []" "is_SetParent s i (ParentImageID c) = Some e"
    for config i e
  proof -
    obtain p l t2 where a: "createImage s c p l = (t2, r)" "EImageCreate config (Some i) \<in> set t2"
      "set t2 \<subseteq> set t"
      by (rule CommitImage_record_part [OF run ev]) auto
    from createImage_failures(4) [OF a(1,2) f] a(3) show ?thesis by auto
  qed
  show ?thesis
    unfolding run fst_conv snd_conv
  proof (intro conjI allI impI)
    show "createEvents t = map (\<lambda>i. ELogImageEvent i i ''create'') (createdIDs t)"
      and "length (createdIDs t) \<le> 1"
      using counted by simp_all
    show "createEvents t = [ELogImageEvent i i ''create'']" if "r = Inr i" for i
      using counted that by simp
    show "isl r" and "createEvents t = [ELogImageEvent i i ''create'']"
      if "ESetBuiltLocally i False \<in> set t" for i
      using flag [OF that] by simp_all
    show "isl r" and "createEvents t = [ELogImageEvent i i ''create'']"
      if "ESetParent i p False \<in> set t" for i p
      using link [OF that] by simp_all
    show "r = Inl e" and "ESetBuiltLocally i False \<in> set t"
      if "EImageCreate config (Some i) \<in> set t \<and> is_SetBuiltLocally s i = Some e"
      for config i e
      using flagFails [of config i e] that by simp_all
    show "r = Inl e" and "ESetParent i (ParentImageID c) False \<in> set t"
      if "EImageCreate config (Some i) \<in> set t \<and> is_SetBuiltLocally s i = None
          \<and> ParentImageID c \<noteq> [] \<and> is_SetParent s i (ParentImageID c) = Some e"
      for config i e
      using linkFails [of config i e] that by simp_all
  qed
qed

text \<open>
  Claim C9. The layers released by a commit are exactly the layers it obtained from
  \<open>Register\<close> (at most one), whatever the commit returns, and the release comes
  after the registration in the trace.
\<close>

theorem CommitImage_releases_registered_layer:
  "released (fst (CommitImage s ctx c)) = registered (fst (CommitImage s ctx c))
   \<and> length (registered (fst (CommitImage s ctx c))) \<le> 1
   \<and> (\<forall>a ch l. ERegister a ch (Some l) \<in> set (fst (CommitImage s ctx c)) \<longrightarrow>
         (\<exists>pre post. fst (CommitImage s ctx c) = pre @ ERegister a ch (Some l) # post
                     \<and> ELayerRelease l \<in> set post))"
proof -
  obtain t r where run: "CommitImage s ctx c = (t, r)" by (cases "CommitImage s ctx c")
  then have "released t = registered t \<and> length (registered t) \<le> 1
      \<and> (\<forall>a ch l. ERegister a ch (Some l) \<in> set t \<longrightarrow>
            (\<exists>pre post. t = pre @ ERegister a ch (Some l) # post \<and> ELayerRelease l \<in> set post))"
  proof (cases rule: CommitImage_shape)
    case (Cancelled e)
    then show ?thesis by (simp add: trace_Nil)
  next
    case (NoExport e)
    then show ?thesis by (simp add: exportContainerRw_quiet)
  next
    case (Exported t1 rc t2)
    have "\<exists>pre post. t = pre @ ERegister a ch (Some l) # post \<and> ELayerRelease l \<in> set post"
      if "ERegister a ch (Some l) \<in> set t" for a ch l
    proof -
      from that Exported(4) have "ERegister a ch (Some l) \<in> set t2"
        by (simp add: exportContainerRw_quiet [OF Exported(2)] rc_Close_quiet)
      from registerAndCreate_layer(3) [OF Exported(3) this]
      obtain pre post where "t2 = pre @ ERegister a ch (Some l) # post" "ELayerRelease l \<in> set post"
        by blast
      then have "t = (t1 @ pre) @ ERegister a ch (Some l) # (post @ fst (rc_Close s rc))"
        "ELayerRelease l \<in> set (post @ fst (rc_Close s rc))"
        using Exported(4) by simp_all
      then show ?thesis by blast
    qed
    then show ?thesis
      using Exported registerAndCreate_layer(1,2) [OF Exported(3)]
      by (simp add: trace_append exportContainerRw_quiet rc_Close_quiet)
  qed
  with run show ?thesis by simp
qed

text \<open>
  Claim C4. Every commit leaves no RW-layer mount and no RW-layer reference open. In the
  export, when \<open>Mount\<close> or \<open>TarStream\<close> fails the error is returned after the
  reference has been released, with nothing left open; when the export succeeds it holds
  one mount and one reference, and closing the returned read-closer closes the archive,
  unmounts the RW layer and releases the reference, which leaves nothing open.
\<close>

theorem commit_export_releases_rwlayer:
  "(\<forall>rw. mountsHeld rw (fst (CommitImage s ctx c)) = 0 \<and> refsHeld rw (fst (CommitImage s ctx c)) = 0)
   \<and> (\<forall>rw e. ls_GetRWLayer s n = Inr rw
          \<and> (rw_Mount s rw lbl = Inl e \<or> (\<exists>m. rw_Mount s rw lbl = Inr m) \<and> rw_TarStream s rw = Inl e)
        \<longrightarrow> snd (exportContainerRw s n lbl) = Inl e
            \<and> last (fst (exportContainerRw s n lbl)) = EReleaseRWLayer rw
            \<and> mountsHeld rw (fst (exportContainerRw s n lbl)) = 0
            \<and> refsHeld rw (fst (exportContainerRw s n lbl)) = 0)
   \<and> (\<forall>rc. snd (exportContainerRw s n lbl) = Inr rc
        \<longrightarrow> mountsHeld (rc_rwlayer rc) (fst (exportContainerRw s n lbl)) = 1
            \<and> refsHeld (rc_rwlayer rc) (fst (exportContainerRw s n lbl)) = 1
            \<and> fst (rc_Close s rc) = [EArchiveClose (rc_archive rc), EUnmount (rc_rwlayer rc),
                                     EReleaseRWLayer (rc_rwlayer rc)]
            \<and> (\<forall>rw. mountsHeld rw (fst (exportContainerRw s n lbl) @ fst (rc_Close s rc)) = 0
                   \<and> refsHeld rw (fst (exportContainerRw s n lbl) @ fst (rc_Close s rc)) = 0))"
proof (intro conjI allI impI)
  fix rw
  show "mountsHeld rw (fst (CommitImage s ctx c)) = 0" "refsHeld rw (fst (CommitImage s ctx c)) = 0"
    using CommitImage_balanced [of rw s ctx c] by simp_all
next
  fix rw e
  assume a: "ls_GetRWLayer s n = Inr rw
          \<and> (rw_Mount s rw lbl = Inl e \<or> (\<exists>m. rw_Mount s rw lbl = Inr m) \<and> rw_TarStream s rw = Inl e)"
  then show "snd (exportContainerRw s n lbl) = Inl e"
    "last (fst (exportContainerRw s n lbl)) = EReleaseRWLayer rw"
    "mountsHeld rw (fst (exportContainerRw s n lbl)) = 0"
    "refsHeld rw (fst (exportContainerRw s n lbl)) = 0"
    by (auto simp: exportContainerRw_def trace_Cons trace_Nil)
next
  fix rc
  assume "snd (exportContainerRw s n lbl) = Inr rc"
  then have ex: "exportContainerRw s n lbl = (fst (exportContainerRw s n lbl), Inr rc)"
    by (metis prod.collapse)
  show "mountsHeld (rc_rwlayer rc) (fst (exportContainerRw s n lbl)) = 1"
    "refsHeld (rc_rwlayer rc) (fst (exportContainerRw s n lbl)) = 1"
    using export_then_close_balanced(3,4) [OF ex] by simp_all
  show "fst (rc_Close s rc) = [EArchiveClose (rc_archive rc), EUnmount (rc_rwlayer rc),
                                     EReleaseRWLayer (rc_rwlayer rc)]"
    using exportContainerRw_success(1) [OF ex] by (simp add: rc_Close_open)
  fix rw
  show "mountsHeld rw (fst (exportContainerRw s n lbl) @ fst (rc_Close s rc)) = 0"
    "refsHeld rw (fst (exportContainerRw s n lbl) @ fst (rc_Close s rc)) = 0"
    using export_then_close_balanced(1,2) [OF ex] by simp_all
qed

subsection \<open>Runs of the example stores\<close>

lemma run_commit0:
  "CommitImage stores0 ctxLive commit0 =
     ([EGetRWLayer ''ctr'' (Some ''rw-ctr''), EMount ''rw-ctr'' ''lbl'' True,
       ETarStream ''rw-ctr'' (Some ''tar''), EImageGet ''P'' True,
       ERegister ''tar'' ''d1'' (Some \<lparr>l_ChainID = ''d1d2'', l_DiffID = ''d2'', l_DiffSize = 10\<rparr>),
       EImageCreate ''d1d2'' (Some ''sha-d1d2''),
       ELogImageEvent ''sha-d1d2'' ''sha-d1d2'' ''create'',
       ESetBuiltLocally ''sha-d1d2'' True, ESetParent ''sha-d1d2'' ''P'' True,
       ELayerRelease \<lparr>l_ChainID = ''d1d2'', l_DiffID = ''d2'', l_DiffSize = 10\<rparr>,
       EArchiveClose ''tar'', EUnmount ''rw-ctr'', EReleaseRWLayer ''rw-ctr''],
      Inr ''sha-d1d2'')"
  by (simp add: CommitImage_def stores0_def ctxLive_def commit0_def exportContainerRw_def
        registerAndCreate_def resolveParent_def createImage_def rc_Close_def rfs_Append_def)

lemma run_commit_NoFlag:
  "CommitImage storesNoFlag ctxLive commit0 =
     ([EGetRWLayer ''ctr'' (Some ''rw-ctr''), EMount ''rw-ctr'' ''lbl'' True,
       ETarStream ''rw-ctr'' (Some ''tar''), EImageGet ''P'' True,
       ERegister ''tar'' ''d1'' (Some \<lparr>l_ChainID = ''d1d2'', l_DiffID = ''d2'', l_DiffSize = 10\<rparr>),
       EImageCreate ''d1d2'' (Some ''sha-d1d2''),
       ELogImageEvent ''sha-d1d2'' ''sha-d1d2'' ''create'',
       ESetBuiltLocally ''sha-d1d2'' False,
       ELayerRelease \<lparr>l_ChainID = ''d1d2'', l_DiffID = ''d2'', l_DiffSize = 10\<rparr>,
       EArchiveClose ''tar'', EUnmount ''rw-ctr'', EReleaseRWLayer ''rw-ctr''],
      Inl (Errorf ''write failed''))"
  by (simp add: CommitImage_def storesNoFlag_def stores0_def ctxLive_def commit0_def
        exportContainerRw_def registerAndCreate_def resolveParent_def createImage_def
        rc_Close_def rfs_Append_def)

lemma run_commit_NoLink:
  "CommitImage storesNoLink ctxLive commit0 =
     ([EGetRWLayer ''ctr'' (Some ''rw-ctr''), EMount ''rw-ctr'' ''lbl'' True,
       ETarStream ''rw-ctr'' (Some ''tar''), EImageGet ''P'' True,
       ERegister ''tar'' ''d1'' (Some \<lparr>l_ChainID = ''d1d2'', l_DiffID = ''d2'', l_DiffSize = 10\<rparr>),
       EImageCreate ''d1d2'' (Some ''sha-d1d2''),
       ELogImageEvent ''sha-d1d2'' ''sha-d1d2'' ''create'',
       ESetBuiltLocally ''sha-d1d2'' True, ESetParent ''sha-d1d2'' ''P'' False,
       ELayerRelease \<lparr>l_ChainID = ''d1d2'', l_DiffID = ''d2'', l_DiffSize = 10\<rparr>,
       EArchiveClose ''tar'', EUnmount ''rw-ctr'', EReleaseRWLayer ''rw-ctr''],
      Inl (Errorf ''link failed''))"
  by (simp add: CommitImage_def storesNoLink_def stores0_def ctxLive_def commit0_def
        exportContainerRw_def registerAndCreate_def resolveParent_def createImage_def
        rc_Close_def rfs_Append_def)

theorem CommitImage_cancelled_at_entry_witness:
  "ctxCancelled 0 = Some ContextCanceled
   \<and> CommitImage stores0 ctxCancelled commit0 = ([], Inl ContextCanceled)"
proof -
  have h: "ctxCancelled 0 = Some ContextCanceled" by (simp add: ctxCancelled_def)
  from h CommitImage_cancelled_at_entry [where ctx = ctxCancelled and s = stores0 and c = commit0, OF h]
  show ?thesis by simp
qed

text \<open>
  Claim C1 as stated fails: when \<open>SetBuiltLocally\<close> fails, the commit returns the
  error and the "create" event has been emitted.
\<close>

theorem CommitImage_event_after_failed_flag:
  "snd (CommitImage storesNoFlag ctxLive commit0) = Inl (Errorf ''write failed'')
   \<and> createEvents (fst (CommitImage storesNoFlag ctxLive commit0)) =
       [ELogImageEvent ''sha-d1d2'' ''sha-d1d2'' ''create'']"
  by (simp add: run_commit_NoFlag trace_Cons trace_Nil)

theorem CommitImage_create_event_iff_created_witness:
  "snd (CommitImage stores0 ctxLive commit0) = Inr ''sha-d1d2''
   \<and> createEvents (fst (CommitImage stores0 ctxLive commit0)) =
       [ELogImageEvent ''sha-d1d2'' ''sha-d1d2'' ''create'']
   \<and> EImageCreate ''d1d2'' (Some ''sha-d1d2'') \<in> set (fst (CommitImage storesNoLink ctxLive commit0))
   \<and> is_SetBuiltLocally storesNoLink ''sha-d1d2'' = None
   \<and> ParentImageID commit0 \<noteq> []
   \<and> is_SetParent storesNoLink ''sha-d1d2'' (ParentImageID commit0) = Some (Errorf ''link failed'')
   \<and> snd (CommitImage storesNoLink ctxLive commit0) = Inl (Errorf ''link failed'')
   \<and> ESetParent ''sha-d1d2'' ''P'' False \<in> set (fst (CommitImage storesNoLink ctxLive commit0))
   \<and> createEvents (fst (CommitImage storesNoLink ctxLive commit0)) =
       [ELogImageEvent ''sha-d1d2'' ''sha-d1d2'' ''create'']
   \<and> EImageCreate ''d1d2'' (Some ''sha-d1d2'') \<in> set (fst (CommitImage storesNoFlag ctxLive commit0))
   \<and> is_SetBuiltLocally storesNoFlag ''sha-d1d2'' = Some (Errorf ''write failed'')
   \<and> ESetBuiltLocally ''sha-d1d2'' False \<in> set (fst (CommitImage storesNoFlag ctxLive commit0))
   \<and> isl (snd (CommitImage storesNoFlag ctxLive commit0))"
proof -
  have ok: "snd (CommitImage stores0 ctxLive commit0) = Inr ''sha-d1d2''"
    by (simp add: run_commit0)
  have created: "EImageCreate ''d1d2'' (Some ''sha-d1d2'') \<in> set (fst (CommitImage storesNoLink ctxLive commit0))"
    "EImageCreate ''d1d2'' (Some ''sha-d1d2'') \<in> set (fst (CommitImage storesNoFlag ctxLive commit0))"
    by (simp_all add: run_commit_NoLink run_commit_NoFlag)
  have env: "is_SetBuiltLocally storesNoLink ''sha-d1d2'' = None"
    "ParentImageID commit0 \<noteq> []" "ParentImageID commit0 = ''P''"
    "is_SetParent storesNoLink ''sha-d1d2'' (ParentImageID commit0) = Some (Errorf ''link failed'')"
    "is_SetBuiltLocally storesNoFlag ''sha-d1d2'' = Some (Errorf ''write failed'')"
    by (simp_all add: storesNoLink_def storesNoFlag_def stores0_def commit0_def)
  note T0 = CommitImage_create_event_iff_created [of stores0 ctxLive commit0]
  note TL = CommitImage_create_event_iff_created [of storesNoLink ctxLive commit0]
  note TF = CommitImage_create_event_iff_created [of storesNoFlag ctxLive commit0]
  from T0 have "\<forall>i. snd (CommitImage stores0 ctxLive commit0) = Inr i \<longrightarrow>
      createEvents (fst (CommitImage stores0 ctxLive commit0)) = [ELogImageEvent i i ''create'']"
    by (elim conjE)
  with ok have a: "createEvents (fst (CommitImage stores0 ctxLive commit0)) =
       [ELogImageEvent ''sha-d1d2'' ''sha-d1d2'' ''create'']"
    by simp
  from TL have "\<forall>config i e. EImageCreate config (Some i) \<in> set (fst (CommitImage storesNoLink ctxLive commit0))
           \<and> is_SetBuiltLocally storesNoLink i = None \<and> ParentImageID commit0 \<noteq> []
           \<and> is_SetParent storesNoLink i (ParentImageID commit0) = Some e \<longrightarrow>
         snd (CommitImage storesNoLink ctxLive commit0) = Inl e
         \<and> ESetParent i (ParentImageID commit0) False \<in> set (fst (CommitImage storesNoLink ctxLive commit0))"
    by (elim conjE)
  from this [rule_format, of "''d1d2''" "''sha-d1d2''" "Errorf ''link failed''"] created(1) env
  have b: "snd (CommitImage storesNoLink ctxLive commit0) = Inl (Errorf ''link failed'')"
    "ESetParent ''sha-d1d2'' ''P'' False \<in> set (fst (CommitImage storesNoLink ctxLive commit0))"
    by simp_all
  from TL have "\<forall>i p. ESetParent i p False \<in> set (fst (CommitImage storesNoLink ctxLive commit0)) \<longrightarrow>
         isl (snd (CommitImage storesNoLink ctxLive commit0))
         \<and> createEvents (fst (CommitImage storesNoLink ctxLive commit0)) = [ELogImageEvent i i ''create'']"
    by (elim conjE)
  with b(2) have c: "createEvents (fst (CommitImage storesNoLink ctxLive commit0)) =
       [ELogImageEvent ''sha-d1d2'' ''sha-d1d2'' ''create'']"
    by blast
  from TF have "\<forall>config i e. EImageCreate config (Some i) \<in> set (fst (CommitImage storesNoFlag ctxLive commit0))
           \<and> is_SetBuiltLocally storesNoFlag i = Some e \<longrightarrow>
         snd (CommitImage storesNoFlag ctxLive commit0) = Inl e
         \<and> ESetBuiltLocally i False \<in> set (fst (CommitImage storesNoFlag ctxLive commit0))"
    by (elim conjE)
  from this [rule_format, of "''d1d2''" "''sha-d1d2''" "Errorf ''write failed''"] created(2) env(5)
  have d: "ESetBuiltLocally ''sha-d1d2'' False \<in> set (fst (CommitImage storesNoFlag ctxLive commit0))"
    by simp
  from TF have "\<forall>i. ESetBuiltLocally i False \<in> set (fst (CommitImage storesNoFlag ctxLive commit0)) \<longrightarrow>
         isl (snd (CommitImage storesNoFlag ctxLive commit0))
         \<and> createEvents (fst (CommitImage storesNoFlag ctxLive commit0)) = [ELogImageEvent i i ''create'']"
    by (elim conjE)
  with d have e: "isl (snd (CommitImage storesNoFlag ctxLive commit0))"
    by blast
  from ok a created env b c d e show ?thesis by simp
qed

theorem CommitImage_releases_registered_layer_witness:
  "ERegister ''tar'' ''d1'' (Some \<lparr>l_ChainID = ''d1d2'', l_DiffID = ''d2'', l_DiffSize = 10\<rparr>)
     \<in> set (fst (CommitImage storesNoFlag ctxLive commit0))
   \<and> isl (snd (CommitImage storesNoFlag ctxLive commit0))
   \<and> released (fst (CommitImage storesNoFlag ctxLive commit0)) =
       [\<lparr>l_ChainID = ''d1d2'', l_DiffID = ''d2'', l_DiffSize = 10\<rparr>]
   \<and> (\<exists>pre post. fst (CommitImage storesNoFlag ctxLive commit0) =
         pre @ ERegister ''tar'' ''d1'' (Some \<lparr>l_ChainID = ''d1d2'', l_DiffID = ''d2'', l_DiffSize = 10\<rparr>) # post
         \<and> ELayerRelease \<lparr>l_ChainID = ''d1d2'', l_DiffID = ''d2'', l_DiffSize = 10\<rparr> \<in> set post)"
proof -
  have h: "ERegister ''tar'' ''d1'' (Some \<lparr>l_ChainID = ''d1d2'', l_DiffID = ''d2'', l_DiffSize = 10\<rparr>)
     \<in> set (fst (CommitImage storesNoFlag ctxLive commit0))"
    and e: "isl (snd (CommitImage storesNoFlag ctxLive commit0))"
    and r: "registered (fst (CommitImage storesNoFlag ctxLive commit0)) =
       [\<lparr>l_ChainID = ''d1d2'', l_DiffID = ''d2'', l_DiffSize = 10\<rparr>]"
    by (simp_all add: run_commit_NoFlag trace_Cons trace_Nil)
  from CommitImage_releases_registered_layer [of storesNoFlag ctxLive commit0] h e r
  show ?thesis by simp
qed

theorem commit_export_releases_rwlayer_witness:
  "ls_GetRWLayer storesNoTar ''ctr'' = Inr ''rw-ctr''
   \<and> rw_Mount storesNoTar ''rw-ctr'' ''lbl'' = Inr ''/mnt''
   \<and> rw_TarStream storesNoTar ''rw-ctr'' = Inl (Errorf ''tar failed'')
   \<and> snd (exportContainerRw storesNoTar ''ctr'' ''lbl'') = Inl (Errorf ''tar failed'')
   \<and> last (fst (exportContainerRw storesNoTar ''ctr'' ''lbl'')) = EReleaseRWLayer ''rw-ctr''
   \<and> snd (exportContainerRw stores0 ''ctr'' ''lbl'') =
        Inr \<lparr>rc_archive = ''tar'', rc_rwlayer = ''rw-ctr'', rc_closed = False\<rparr>
   \<and> fst (rc_Close stores0 \<lparr>rc_archive = ''tar'', rc_rwlayer = ''rw-ctr'', rc_closed = False\<rparr>) =
        [EArchiveClose ''tar'', EUnmount ''rw-ctr'', EReleaseRWLayer ''rw-ctr'']
   \<and> mountsHeld ''rw-ctr'' (fst (CommitImage storesNoTar ctxLive commit0)) = 0"
proof -
  have h: "ls_GetRWLayer storesNoTar ''ctr'' = Inr ''rw-ctr''"
    "rw_Mount storesNoTar ''rw-ctr'' ''lbl'' = Inr ''/mnt''"
    "rw_TarStream storesNoTar ''rw-ctr'' = Inl (Errorf ''tar failed'')"
    by (simp_all add: storesNoTar_def stores0_def)
  have k: "snd (exportContainerRw stores0 ''ctr'' ''lbl'') =
        Inr \<lparr>rc_archive = ''tar'', rc_rwlayer = ''rw-ctr'', rc_closed = False\<rparr>"
    by (simp add: exportContainerRw_def stores0_def)
  from h commit_export_releases_rwlayer [of storesNoTar ctxLive commit0 "''ctr''" "''lbl''"]
  have "snd (exportContainerRw storesNoTar ''ctr'' ''lbl'') = Inl (Errorf ''tar failed'')
     \<and> last (fst (exportContainerRw storesNoTar ''ctr'' ''lbl'')) = EReleaseRWLayer ''rw-ctr''
     \<and> mountsHeld ''rw-ctr'' (fst (CommitImage storesNoTar ctxLive commit0)) = 0"
    by blast
  moreover from k commit_export_releases_rwlayer [of stores0 ctxLive commit0 "''ctr''" "''lbl''"]
  have "fst (rc_Close stores0 \<lparr>rc_archive = ''tar'', rc_rwlayer = ''rw-ctr'', rc_closed = False\<rparr>) =
        [EArchiveClose ''tar'', EUnmount ''rw-ctr'', EReleaseRWLayer ''rw-ctr'']"
    by simp
  ultimately show ?thesis using h k by simp
qed

section \<open>Creating and releasing layers, transfer concurrency\<close>

lemma errors_Is_refl: "errors_Is e e"
  by (cases e) simp_all

text \<open>
  Claim C10. For a container whose \<open>ImageID\<close> is empty, \<open>CreateLayer\<close> makes the one
  call \<open>CreateRWLayer\<close> with the empty chain ID and does not depend on the image
  store; the image store is asked only for a non-empty \<open>ImageID\<close>, and the error of
  its \<open>Get\<close> is returned as it is, with nothing created.
\<close>

theorem CreateLayer_image_less:
  "(ct_ImageID container = [] \<longrightarrow>
      CreateLayer s container initFunc =
        ([ECreateRWLayer (ct_ID container) []
            \<lparr>o_MountLabel = ct_MountLabel container, o_InitFunc = initFunc,
             o_StorageOpt = ct_StorageOpt container\<rparr>],
         ls_CreateRWLayer s (ct_ID container) []
            \<lparr>o_MountLabel = ct_MountLabel container, o_InitFunc = initFunc,
             o_StorageOpt = ct_StorageOpt container\<rparr>)
      \<and> CreateLayer (s\<lparr>is_Get := g\<rparr>) container initFunc = CreateLayer s container initFunc)
   \<and> (\<forall>i ok. EImageGet i ok \<in> set (fst (CreateLayer s container initFunc)) \<longrightarrow>
         ct_ImageID container \<noteq> [] \<and> i = ct_ImageID container)
   \<and> (\<forall>e. ct_ImageID container \<noteq> [] \<and> is_Get s (ct_ImageID container) = Inl e \<longrightarrow>
         CreateLayer s container initFunc = ([EImageGet (ct_ImageID container) False], Inl e))"
  by (auto simp: CreateLayer_def CreateLayerFromImage_def Let_def split: sum.splits)

theorem CreateLayer_image_less_witness:
  "ct_ImageID containerNoImage = []
   \<and> CreateLayer stores0 containerNoImage ''init'' =
       ([ECreateRWLayer ''c1'' [] \<lparr>o_MountLabel = ''lbl'', o_InitFunc = ''init'', o_StorageOpt = []\<rparr>],
        Inr ''c1'')
   \<and> ct_ImageID containerLostImage \<noteq> []
   \<and> is_Get stores0 (ct_ImageID containerLostImage) = Inl ErrImageNotFound
   \<and> CreateLayer stores0 containerLostImage ''init'' = ([EImageGet ''Q'' False], Inl ErrImageNotFound)"
proof -
  have h: "ct_ImageID containerNoImage = []" "ct_ImageID containerLostImage \<noteq> []"
    "is_Get stores0 (ct_ImageID containerLostImage) = Inl ErrImageNotFound"
    by (simp_all add: containerNoImage_def containerLostImage_def stores0_def)
  from h(1) CreateLayer_image_less [of containerNoImage stores0 "''init''"]
  have "CreateLayer stores0 containerNoImage ''init'' =
       ([ECreateRWLayer ''c1'' [] \<lparr>o_MountLabel = ''lbl'', o_InitFunc = ''init'', o_StorageOpt = []\<rparr>],
        Inr ''c1'')"
    by (simp add: containerNoImage_def stores0_def)
  moreover from h(2,3) CreateLayer_image_less [of containerLostImage stores0 "''init''"]
  have "CreateLayer stores0 containerLostImage ''init'' = ([EImageGet ''Q'' False], Inl ErrImageNotFound)"
    by (simp add: containerLostImage_def)
  ultimately show ?thesis using h by simp
qed

text \<open>
  Claim C6. When \<open>ReleaseRWLayer\<close> fails with an error that is
  \<open>ErrMountDoesNotExist\<close> or \<open>os.ErrNotExist\<close> (as \<open>errors.Is\<close> sees it),
  \<open>ReleaseLayer\<close> returns nil; any other error is returned wrapped in a message that
  names the driver, and still is the original error.
\<close>

theorem ReleaseLayer_missing_mount_is_clean:
  "ls_ReleaseRWLayer s l = (metaData, Some e) \<Longrightarrow>
     (errors_Is e ErrMountDoesNotExist \<or> errors_Is e OsErrNotExist \<longrightarrow>
        snd (ReleaseLayer s (LayerRWLayer l)) = None)
     \<and> (\<not> errors_Is e ErrMountDoesNotExist \<and> \<not> errors_Is e OsErrNotExist \<longrightarrow>
        snd (ReleaseLayer s (LayerRWLayer l)) =
          Some (Wrapf (''driver '' @ go_quote (ls_DriverName s)
                       @ '' failed to remove root filesystem'') e)
        \<and> errors_Is (the (snd (ReleaseLayer s (LayerRWLayer l)))) e)"
  by (auto simp: ReleaseLayer_def errors_Is_refl)

theorem ReleaseLayer_missing_mount_is_clean_witness:
  "ls_ReleaseRWLayer storesMountGone ''rw'' = ([], Some (Wrapf ''unmount'' ErrMountDoesNotExist))
   \<and> errors_Is (Wrapf ''unmount'' ErrMountDoesNotExist) ErrMountDoesNotExist
   \<and> snd (ReleaseLayer storesMountGone (LayerRWLayer ''rw'')) = None
   \<and> ls_ReleaseRWLayer storesBusy ''rw'' = ([], Some (Errorf ''device busy''))
   \<and> \<not> errors_Is (Errorf ''device busy'') ErrMountDoesNotExist
   \<and> \<not> errors_Is (Errorf ''device busy'') OsErrNotExist
   \<and> snd (ReleaseLayer storesBusy (LayerRWLayer ''rw'')) =
       Some (Wrapf (''driver '' @ go_quote ''overlay2'' @ '' failed to remove root filesystem'')
               (Errorf ''device busy''))"
proof -
  have g: "ls_ReleaseRWLayer storesMountGone ''rw'' = ([], Some (Wrapf ''unmount'' ErrMountDoesNotExist))"
    and b: "ls_ReleaseRWLayer storesBusy ''rw'' = ([], Some (Errorf ''device busy''))"
    and d: "ls_DriverName storesBusy = ''overlay2''"
    by (simp_all add: storesMountGone_def storesBusy_def stores0_def)
  from ReleaseLayer_missing_mount_is_clean [OF g]
  have "snd (ReleaseLayer storesMountGone (LayerRWLayer ''rw'')) = None" by simp
  moreover from ReleaseLayer_missing_mount_is_clean [OF b] d
  have "snd (ReleaseLayer storesBusy (LayerRWLayer ''rw'')) =
       Some (Wrapf (''driver '' @ go_quote ''overlay2'' @ '' failed to remove root filesystem'')
               (Errorf ''device busy''))"
    by simp
  ultimately show ?thesis using g b by simp
qed

text \<open>
  Claim C8. With \<open>maxDownloads = 0\<close> the download manager is left as it was and its
  \<open>SetConcurrency\<close> is not called; likewise for \<open>maxUploads = 0\<close> and the upload
  manager. A zero for one does not keep the other from being set.
\<close>

theorem UpdateConfig_zero_keeps_bound:
  "(maxDownloads = 0 \<longrightarrow>
      downloadManager (snd (UpdateConfig dS uS i maxDownloads maxUploads)) = downloadManager i
      \<and> (\<forall>n. DownloadSetConcurrency n \<notin> set (fst (UpdateConfig dS uS i maxDownloads maxUploads))))
   \<and> (maxUploads = 0 \<longrightarrow>
      uploadManager (snd (UpdateConfig dS uS i maxDownloads maxUploads)) = uploadManager i
      \<and> (\<forall>n. UploadSetConcurrency n \<notin> set (fst (UpdateConfig dS uS i maxDownloads maxUploads))))
   \<and> (\<forall>um. maxDownloads = 0 \<and> maxUploads \<noteq> 0 \<and> uploadManager i = Some um \<longrightarrow>
      UpdateConfig dS uS i maxDownloads maxUploads =
        ([UploadSetConcurrency maxUploads], i\<lparr>uploadManager := Some (uS maxUploads um)\<rparr>))
   \<and> (\<forall>dm. maxUploads = 0 \<and> maxDownloads \<noteq> 0 \<and> downloadManager i = Some dm \<longrightarrow>
      UpdateConfig dS uS i maxDownloads maxUploads =
        ([DownloadSetConcurrency maxDownloads], i\<lparr>downloadManager := Some (dS maxDownloads dm)\<rparr>))"
  by (auto simp: UpdateConfig_def split: option.splits)

theorem UpdateConfig_zero_keeps_bound_witness:
  "UpdateConfig setBound setBound managers0 0 2 =
     ([UploadSetConcurrency 2], \<lparr>downloadManager = Some 3, uploadManager = Some 2\<rparr>)
   \<and> UpdateConfig setBound setBound managers0 4 0 =
     ([DownloadSetConcurrency 4], \<lparr>downloadManager = Some 4, uploadManager = Some 5\<rparr>)
   \<and> UpdateConfig setBound setBound managers0 0 0 = ([], managers0)"
proof -
  have u: "uploadManager managers0 = Some 5" and d: "downloadManager managers0 = Some 3"
    by (simp_all add: managers0_def)
  from u UpdateConfig_zero_keeps_bound [of 0 setBound setBound managers0 2]
  have "UpdateConfig setBound setBound managers0 0 2 =
     ([UploadSetConcurrency 2], \<lparr>downloadManager = Some 3, uploadManager = Some 2\<rparr>)"
    by (simp add: managers0_def setBound_def)
  moreover from d UpdateConfig_zero_keeps_bound [of 4 setBound setBound managers0 0]
  have "UpdateConfig setBound setBound managers0 4 0 =
     ([DownloadSetConcurrency 4], \<lparr>downloadManager = Some 4, uploadManager = Some 5\<rparr>)"
    by (simp add: managers0_def setBound_def)
  moreover have "UpdateConfig setBound setBound managers0 0 0 = ([], managers0)"
    by (simp add: UpdateConfig_def managers0_def)
  ultimately show ?thesis by simp
qed

section \<open>Disk usage\<close>

lemma incr_apply: "incr m k k' = (if k' = k then Some ((case m k of None \<Rightarrow> 0 | Some n \<Rightarrow> n) + 1) else m k')"
  by (simp add: incr_def)

lemma dom_incr: "dom (incr m k) = insert k (dom m)"
  by (simp add: incr_def)

lemma dom_countChain:
  "dom (countChain s r refs ds) =
     dom refs \<union> set (map (\<lambda>p. rfs_ChainID s (r\<lparr>DiffIDs := DiffIDs r @ p\<rparr>)) (nonemptyPrefixes ds))"
proof (induction ds arbitrary: r refs)
  case Nil
  show ?case by simp
next
  case (Cons d ds)
  show ?case
    by (simp add: Let_def Cons.IH dom_incr rfs_Append_def image_image)
qed

lemma dom_getLayerRefs_loop:
  "dom (getLayerRefs_loop s refs imgs) =
     dom refs \<union> set (concat (map (\<lambda>(i, img). chainIDsOf s img)
       (filter (\<lambda>(i, img). \<not> (rs_References s i = [] \<and> is_Children s i \<noteq> [])) imgs)))"
proof (induction imgs arbitrary: refs)
  case Nil
  show ?case by simp
next
  case (Cons a imgs)
  obtain i img where a: "a = (i, img)" by (cases a)
  show ?case
    unfolding a
    by (auto simp: Cons.IH dom_countChain chainIDsOf_def)
qed

lemma dom_getLayerRefs: "dom (getLayerRefs s) = set (referencedChainIDs s)"
  by (simp add: getLayerRefs_def dom_getLayerRefs_loop referencedChainIDs_def keptImages_def)

lemma ImageDiskUsage_loop_live:
  "(\<forall>j<length ls. ctx (k + j) = None) \<Longrightarrow>
     ImageDiskUsage_loop ctx refs k acc ls =
       (acc + sum_list (map l_DiffSize (filter (\<lambda>l. l_ChainID l \<in> dom refs) (map snd ls))),
        None, k + length ls)"
proof (induction ls arbitrary: k acc)
  case Nil
  show ?case by simp
next
  case (Cons a ls)
  obtain key l where a: "a = (key, l)" by (cases a)
  from Cons.prems have here: "ctx k = None" by force
  from Cons.prems have "\<forall>j<length ls. ctx (Suc k + j) = None" by force
  from Cons.IH [OF this] here show ?case
    unfolding a by (auto simp: domIff)
qed

lemma ImageDiskUsage_loop_cancelled:
  "j < length ls \<Longrightarrow> (\<forall>i<j. ctx (k + i) = None) \<Longrightarrow> ctx (k + j) = Some e \<Longrightarrow>
     ImageDiskUsage_loop ctx refs k acc ls =
       (acc + sum_list (map l_DiffSize (filter (\<lambda>l. l_ChainID l \<in> dom refs) (map snd (take j ls)))),
        Some e, Suc (k + j))"
proof (induction ls arbitrary: k acc j)
  case Nil
  then show ?case by simp
next
  case (Cons a ls)
  obtain key l where a: "a = (key, l)" by (cases a)
  show ?case
  proof (cases j)
    case 0
    with Cons.prems show ?thesis unfolding a by simp
  next
    case (Suc j')
    from Cons.prems Suc have here: "ctx k = None" by force
    from Cons.prems Suc have "j' < length ls" "\<forall>i<j'. ctx (Suc k + i) = None" "ctx (Suc k + j') = Some e"
      by force+
    from Cons.IH [OF this] here Suc show ?thesis
      unfolding a by (auto simp: domIff)
  qed
qed


lemma countChain_apply:
  "countChain s r refs ds ch =
     (if count_list (map (\<lambda>p. rfs_ChainID s (r\<lparr>DiffIDs := DiffIDs r @ p\<rparr>)) (nonemptyPrefixes ds)) ch = 0
      then refs ch
      else Some ((case refs ch of None \<Rightarrow> 0 | Some m \<Rightarrow> m)
                 + of_nat (count_list (map (\<lambda>p. rfs_ChainID s (r\<lparr>DiffIDs := DiffIDs r @ p\<rparr>))
                                          (nonemptyPrefixes ds)) ch)))"
proof (induction ds arbitrary: r refs)
  case Nil
  show ?case by simp
next
  case (Cons d ds)
  show ?case
    by (simp add: Let_def Cons.IH incr_apply rfs_Append_def comp_def split: option.splits)
qed

lemma countChain_image:
  "countChain s ((RootFS img)\<lparr>DiffIDs := []\<rparr>) refs (DiffIDs (RootFS img)) ch =
     (if count_list (chainIDsOf s img) ch = 0 then refs ch
      else Some ((case refs ch of None \<Rightarrow> 0 | Some m \<Rightarrow> m)
                 + of_nat (count_list (chainIDsOf s img) ch)))"
  by (simp add: countChain_apply chainIDsOf_def)

lemma getLayerRefs_loop_apply:
  "getLayerRefs_loop s refs imgs ch =
     (if count_list (concat (map (\<lambda>(i, img). chainIDsOf s img)
           (filter (\<lambda>(i, img). \<not> (rs_References s i = [] \<and> is_Children s i \<noteq> [])) imgs))) ch = 0
      then refs ch
      else Some ((case refs ch of None \<Rightarrow> 0 | Some m \<Rightarrow> m)
                 + of_nat (count_list (concat (map (\<lambda>(i, img). chainIDsOf s img)
           (filter (\<lambda>(i, img). \<not> (rs_References s i = [] \<and> is_Children s i \<noteq> [])) imgs))) ch)))"
proof (induction imgs arbitrary: refs)
  case Nil
  show ?case by simp
next
  case (Cons a imgs)
  obtain i img where a: "a = (i, img)" by (cases a)
  show ?case
    unfolding a
    by (simp add: Cons.IH countChain_image add.assoc split: option.splits)
qed

lemma getLayerRefs_apply:
  "getLayerRefs s ch =
     (if ch \<in> set (referencedChainIDs s)
      then Some (of_nat (count_list (referencedChainIDs s) ch)) else None)"
  by (simp add: getLayerRefs_def getLayerRefs_loop_apply referencedChainIDs_def keptImages_def
        count_list_0_iff)

lemma sint_sum_list:
  fixes ws :: "64 word list"
  assumes "\<forall>w\<in>set ws. 0 \<le> sint w" and "sum_list (map sint ws) < 2 ^ 63"
  shows "sint (sum_list ws) = sum_list (map sint ws)"
  using assms
proof (induction ws)
  case Nil
  show ?case by simp
next
  case (Cons w ws)
  have nn: "0 \<le> sum_list (map sint ws)"
    using Cons.prems(1) by (auto intro!: sum_list_nonneg)
  have w0: "0 \<le> sint w" using Cons.prems(1) by simp
  from Cons.prems w0 have "sum_list (map sint ws) < 2 ^ 63" by simp
  with Cons have ih: "sint (sum_list ws) = sum_list (map sint ws)" by simp
  have "sint (w + sum_list ws) = sint w + sint (sum_list ws)"
    using Cons.prems(2) w0 nn ih
    by (simp add: signed_take_bit_int_eq_self sint_word_ariths)
  with ih show ?case by simp
qed


lemma countedLayers_append:
  "countedLayers s (xs @ ys) = countedLayers s xs @ countedLayers s ys"
  by (simp add: countedLayers_def)

lemma ImageDiskUsage_live:
  assumes "\<forall>k<length (ls_Map s). ctx k = None"
  shows "ImageDiskUsage s ctx = (diskUsageTotal s, None, length (ls_Map s))"
  using ImageDiskUsage_loop_live [of "ls_Map s" ctx 0 "getLayerRefs s" 0] assms
  by (simp add: ImageDiskUsage_def diskUsageTotal_def countedLayers_def dom_getLayerRefs)

lemma ImageDiskUsage_stopped:
  assumes "j < length (ls_Map s)" and "\<forall>i<j. ctx i = None" and "ctx j = Some e"
  shows "ImageDiskUsage s ctx =
           (sum_list (map l_DiffSize (countedLayers s (take j (ls_Map s)))), Some e, Suc j)"
  using ImageDiskUsage_loop_cancelled [of j "ls_Map s" ctx 0 e "getLayerRefs s" 0] assms
  by (simp add: ImageDiskUsage_def countedLayers_def dom_getLayerRefs)

lemma partial_le_total:
  assumes nonneg: "\<forall>l\<in>set (countedLayers s ls). 0 \<le> sint (l_DiffSize l)"
    and fits: "sum_list (map (sint \<circ> l_DiffSize) (countedLayers s ls)) < 2 ^ 63"
  shows "0 \<le> sint (sum_list (map l_DiffSize (countedLayers s (take j ls))))"
    and "sint (sum_list (map l_DiffSize (countedLayers s (take j ls))))
           \<le> sint (sum_list (map l_DiffSize (countedLayers s ls)))"
proof -
  let ?a = "countedLayers s (take j ls)" and ?b = "countedLayers s (drop j ls)"
  have split: "countedLayers s ls = ?a @ ?b"
    using countedLayers_append [of s "take j ls" "drop j ls"] by simp
  have a0: "0 \<le> sum_list (map (sint \<circ> l_DiffSize) ?a)"
    and b0: "0 \<le> sum_list (map (sint \<circ> l_DiffSize) ?b)"
    using nonneg unfolding split by (auto intro!: sum_list_nonneg)
  have sum: "sum_list (map (sint \<circ> l_DiffSize) (countedLayers s ls)) =
      sum_list (map (sint \<circ> l_DiffSize) ?a) + sum_list (map (sint \<circ> l_DiffSize) ?b)"
    unfolding split by simp
  have whole: "sint (sum_list (map l_DiffSize (countedLayers s ls))) =
      sum_list (map (sint \<circ> l_DiffSize) (countedLayers s ls))"
    using sint_sum_list [of "map l_DiffSize (countedLayers s ls)"] nonneg fits
    by (simp add: comp_def)
  have part: "sint (sum_list (map l_DiffSize ?a)) = sum_list (map (sint \<circ> l_DiffSize) ?a)"
    using sint_sum_list [of "map l_DiffSize ?a"] nonneg fits b0 unfolding split sum
    by (simp add: comp_def)
  show "0 \<le> sint (sum_list (map l_DiffSize ?a))" using part a0 by simp
  show "sint (sum_list (map l_DiffSize ?a)) \<le> sint (sum_list (map l_DiffSize (countedLayers s ls)))"
    using part whole sum b0 by simp
qed

text \<open>
  Claim C2. The map built by \<open>getLayerRefs\<close> has exactly the chain IDs referenced by
  the kept images as keys, each with the number of times it is referenced; and a run of
  \<open>ImageDiskUsage\<close> that is not cancelled returns the total of the specification: the
  sum of \<open>DiffSize()\<close> over the layers of the snapshot whose chain ID is a key of that
  map, each layer once, after one observation of the context for each layer.
\<close>

theorem ImageDiskUsage_total:
  "(\<forall>ch. getLayerRefs s ch =
          (if ch \<in> set (referencedChainIDs s)
           then Some (of_nat (count_list (referencedChainIDs s) ch)) else None))
   \<and> ((\<forall>k<length (ls_Map s). ctx k = None) \<longrightarrow>
        ImageDiskUsage s ctx = (diskUsageTotal s, None, length (ls_Map s)))"
  using getLayerRefs_apply [of s] ImageDiskUsage_live [of s ctx] by simp

text \<open>
  Claim C3, as amended. When the context is first seen cancelled at the observation for
  layer \<open>j\<close>, \<open>ImageDiskUsage\<close> returns the sum over the layers before it with the
  context's error, after \<open>j + 1\<close> observations (one for each layer iterated). If the
  sizes of the counted layers are non-negative and their total is below 2^63, this
  partial size is non-negative and at most the total of a run that is not cancelled.
\<close>

theorem ImageDiskUsage_cancelled:
  assumes "j < length (ls_Map s)" and "\<forall>i<j. ctx i = None" and "ctx j = Some e"
  shows "ImageDiskUsage s ctx =
           (sum_list (map l_DiffSize (countedLayers s (take j (ls_Map s)))), Some e, Suc j)
     \<and> ((\<forall>l\<in>set (countedLayers s (ls_Map s)). 0 \<le> sint (l_DiffSize l))
          \<and> sum_list (map (sint \<circ> l_DiffSize) (countedLayers s (ls_Map s))) < 2 ^ 63
        \<longrightarrow> 0 \<le> sint (fst (ImageDiskUsage s ctx))
            \<and> sint (fst (ImageDiskUsage s ctx)) \<le> sint (fst (ImageDiskUsage s ctxLive)))"
proof -
  have live: "ImageDiskUsage s ctxLive = (diskUsageTotal s, None, length (ls_Map s))"
    by (rule ImageDiskUsage_live) (simp add: ctxLive_def)
  show ?thesis
    using ImageDiskUsage_stopped [OF assms] live partial_le_total [of s "ls_Map s" j]
    by (simp add: diskUsageTotal_def)
qed

lemma storesDU_referenced: "referencedChainIDs storesDU = [''x'', ''xy'', ''x'', ''xz'']"
  by (simp add: referencedChainIDs_def keptImages_def chainIDsOf_def storesDU_def stores0_def
        imageOf_def)

lemma storesDU_counted:
  "countedLayers storesDU (ls_Map storesDU) =
     [snd (layerOf ''x'' 5), snd (layerOf ''xy'' 7), snd (layerOf ''xz'' 11)]"
  "countedLayers storesDU (take 2 (ls_Map storesDU)) =
     [snd (layerOf ''x'' 5), snd (layerOf ''xy'' 7)]"
  by (simp_all add: countedLayers_def storesDU_referenced)
    (simp_all add: storesDU_def layerOf_def)

lemma layerOf_size: "l_DiffSize (snd (layerOf ch n)) = n"
  by (simp add: layerOf_def)

theorem ImageDiskUsage_total_witness:
  "ImageDiskUsage storesDU ctxLive = (23, None, 5)
   \<and> getLayerRefs storesDU ''x'' = Some 2
   \<and> getLayerRefs storesDU ''xw'' = None"
proof -
  have h: "\<forall>k<length (ls_Map storesDU). ctxLive k = None" by (simp add: ctxLive_def)
  have n: "length (ls_Map storesDU) = 5" by (simp add: storesDU_def)
  from h ImageDiskUsage_total [of storesDU ctxLive]
  show ?thesis
    by (simp add: diskUsageTotal_def storesDU_counted storesDU_referenced n layerOf_size)
qed

theorem ImageDiskUsage_cancelled_witness:
  "2 < length (ls_Map storesDU) \<and> ctxDoneFrom 2 0 = None \<and> ctxDoneFrom 2 1 = None
   \<and> ctxDoneFrom 2 2 = Some ContextCanceled
   \<and> ImageDiskUsage storesDU (ctxDoneFrom 2) = (12, Some ContextCanceled, 3)
   \<and> sint (fst (ImageDiskUsage storesDU (ctxDoneFrom 2)))
       \<le> sint (fst (ImageDiskUsage storesDU ctxLive))"
proof -
  have h: "2 < length (ls_Map storesDU)" "\<forall>i<2. ctxDoneFrom 2 i = None"
    "ctxDoneFrom 2 2 = Some ContextCanceled"
    by (simp_all add: ctxDoneFrom_def storesDU_def)
  have f: "(\<forall>l\<in>set (countedLayers storesDU (ls_Map storesDU)). 0 \<le> sint (l_DiffSize l))
          \<and> sum_list (map (sint \<circ> l_DiffSize) (countedLayers storesDU (ls_Map storesDU))) < 2 ^ 63"
    by (simp add: storesDU_counted layerOf_size)
  have t: "ImageDiskUsage storesDU (ctxDoneFrom 2) = (12, Some ContextCanceled, 3)"
    using ImageDiskUsage_cancelled [OF h] by (simp add: storesDU_counted layerOf_size)
  have g: "ctxDoneFrom 2 0 = None" "ctxDoneFrom 2 1 = None"
    by (simp_all add: ctxDoneFrom_def)
  from ImageDiskUsage_cancelled [OF h] f h g t show ?thesis
    by blast
qed

text \<open>
  Claim C3 as stated fails when the \<open>int64\<close> accumulator wraps: with two counted
  layers of 2^62 bytes the total is negative, and the partial size after one layer
  is above it.
\<close>

theorem ImageDiskUsage_partial_above_wrapped_total:
  "ImageDiskUsage storesHuge (ctxDoneFrom 1) = (0x4000000000000000, Some ContextCanceled, 2)
   \<and> ImageDiskUsage storesHuge ctxLive = (0x8000000000000000, None, 2)
   \<and> sint (fst (ImageDiskUsage storesHuge ctxLive)) < 0
   \<and> \<not> sint (fst (ImageDiskUsage storesHuge (ctxDoneFrom 1)))
         \<le> sint (fst (ImageDiskUsage storesHuge ctxLive))"
proof -
  have a: "ImageDiskUsage storesHuge (ctxDoneFrom 1) = (0x4000000000000000, Some ContextCanceled, 2)"
    by (simp add: ImageDiskUsage_def getLayerRefs_def storesHuge_def stores0_def imageOf_def
          layerOf_def ctxDoneFrom_def incr_def rfs_Append_def Let_def)
  have b: "ImageDiskUsage storesHuge ctxLive = (0x8000000000000000, None, 2)"
    by (simp add: ImageDiskUsage_def getLayerRefs_def storesHuge_def stores0_def imageOf_def
          layerOf_def ctxLive_def incr_def rfs_Append_def Let_def)
  show ?thesis unfolding a b by simp
qed

section \<open>Chain resolution\<close>

lemma blobCalls_simps:
  "blobCalls [] = []"
  "blobCalls (c # t) = blobCall c @ blobCalls t"
  "blobCalls (t @ u) = blobCalls t @ blobCalls u"
  by (simp_all add: blobCalls_def)

lemma getRef_bottom_up_failed: "getRef_bottom_up G (Inl e) ds = ([], Inl e)"
  by (cases ds) simp_all

lemma getRef_bottom_up_snoc:
  "getRef_bottom_up G r (ds @ [x]) =
     (case getRef_bottom_up G r ds of
        (t, Inl e) \<Rightarrow> (t, Inl e)
      | (t, Inr p) \<Rightarrow> (t @ [CGetByBlob x (Some p), CRelease p], G x (Some p)))"
proof (induction ds arbitrary: r)
  case Nil
  show ?case by (cases r) (simp_all split: prod.splits)
next
  case (Cons d ds)
  show ?case
  proof (cases r)
    case (Inl e)
    then show ?thesis by simp
  next
    case (Inr p)
    then show ?thesis by (simp add: Cons.IH split: prod.splits sum.splits)
  qed
qed

lemma getRef_single: "getRef G [d] = ([CGetByBlob d None], Ret (G d None))"
  by (simp add: getRef.simps [of G "[d]"])

lemma getRef_snoc:
  "ds \<noteq> [] \<Longrightarrow>
     getRef G (ds @ [x]) =
       (case getRef G ds of
          (t, Panic m) \<Rightarrow> (t, Panic m)
        | (t, Ret (Inl e)) \<Rightarrow> (t, Ret (Inl e))
        | (t, Ret (Inr p)) \<Rightarrow> (t @ [CGetByBlob x (Some p), CRelease p], Ret (G x (Some p))))"
  by (subst getRef.simps) (simp add: nth_append)

lemma getRef_is_bottom_up:
  "getRef G (d # ds) =
     (CGetByBlob d None # fst (getRef_bottom_up G (G d None) ds),
      Ret (snd (getRef_bottom_up G (G d None) ds)))"
proof (induction ds rule: rev_induct)
  case Nil
  show ?case by (simp add: getRef_single)
next
  case (snoc x ds)
  have "getRef G ((d # ds) @ [x]) =
       (case getRef G (d # ds) of
          (t, Panic m) \<Rightarrow> (t, Panic m)
        | (t, Ret (Inl e)) \<Rightarrow> (t, Ret (Inl e))
        | (t, Ret (Inr p)) \<Rightarrow> (t @ [CGetByBlob x (Some p), CRelease p], Ret (G x (Some p))))"
    by (rule getRef_snoc) simp
  then show ?case
    by (simp add: snoc.IH getRef_bottom_up_snoc split: prod.splits sum.splits)
qed

lemma blobCalls_bottom_up:
  "\<exists>k\<le>length ds. blobCalls (fst (getRef_bottom_up G r ds)) = take k ds
      \<and> (\<forall>p. snd (getRef_bottom_up G r ds) = Inr p \<longrightarrow> k = length ds)"
proof (induction ds arbitrary: r)
  case Nil
  show ?case by (simp add: blobCalls_simps)
next
  case (Cons d ds)
  show ?case
  proof (cases r)
    case (Inl e)
    then show ?thesis by (auto simp: blobCalls_simps intro: exI [of _ 0])
  next
    case (Inr p)
    from Cons.IH [of "G d (Some p)"] obtain k where k: "k \<le> length ds"
      "blobCalls (fst (getRef_bottom_up G (G d (Some p)) ds)) = take k ds"
      "\<forall>q. snd (getRef_bottom_up G (G d (Some p)) ds) = Inr q \<longrightarrow> k = length ds"
      by blast
    with Inr show ?thesis
      by (intro exI [of _ "Suc k"]) (simp add: blobCalls_simps case_prod_beta)
  qed
qed

text \<open>
  Claim C7. For a non-empty list, \<open>getRef\<close> (a total function: each recursive call is
  on the list without its last element) does what the bottom-up resolution does: the
  blobs asked for are the diff IDs in order, from the first up to the position that
  fails or to the last, each with the reference of the position before it as parent. For
  a list of two or more, all calls for the list without its last element come first, and
  the last position is asked for only when they succeeded.
\<close>

theorem getRef_parent_before_child:
  "ds \<noteq> [] \<Longrightarrow>
     getRef G ds =
       (CGetByBlob (hd ds) None # fst (getRef_bottom_up G (G (hd ds) None) (tl ds)),
        Ret (snd (getRef_bottom_up G (G (hd ds) None) (tl ds))))
     \<and> (\<exists>k. 1 \<le> k \<and> k \<le> length ds \<and> blobCalls (fst (getRef G ds)) = take k ds
            \<and> (\<forall>r. snd (getRef G ds) = Ret (Inr r) \<longrightarrow> k = length ds))
     \<and> (1 < length ds \<longrightarrow>
          (\<exists>rest. fst (getRef G ds) = fst (getRef G (butlast ds)) @ rest
             \<and> (\<forall>e. snd (getRef G (butlast ds)) = Ret (Inl e) \<longrightarrow>
                   rest = [] \<and> snd (getRef G ds) = Ret (Inl e))
             \<and> (\<forall>p. snd (getRef G (butlast ds)) = Ret (Inr p) \<longrightarrow>
                   rest = [CGetByBlob (last ds) (Some p), CRelease p]
                   \<and> snd (getRef G ds) = Ret (G (last ds) (Some p)))))"
proof -
  assume ne: "ds \<noteq> []"
  then obtain d ds' where ds: "ds = d # ds'" by (cases ds) auto
  have up: "getRef G ds =
       (CGetByBlob (hd ds) None # fst (getRef_bottom_up G (G (hd ds) None) (tl ds)),
        Ret (snd (getRef_bottom_up G (G (hd ds) None) (tl ds))))"
    unfolding ds by (simp add: getRef_is_bottom_up)
  from blobCalls_bottom_up [of ds' G "G d None"] obtain k where k: "k \<le> length ds'"
    "blobCalls (fst (getRef_bottom_up G (G d None) ds')) = take k ds'"
    "\<forall>p. snd (getRef_bottom_up G (G d None) ds') = Inr p \<longrightarrow> k = length ds'"
    by blast
  have order: "\<exists>k. 1 \<le> k \<and> k \<le> length ds \<and> blobCalls (fst (getRef G ds)) = take k ds
            \<and> (\<forall>r. snd (getRef G ds) = Ret (Inr r) \<longrightarrow> k = length ds)"
    using k unfolding ds
    by (intro exI [of _ "Suc k"]) (simp add: getRef_is_bottom_up blobCalls_simps)
  have step: "\<exists>rest. fst (getRef G ds) = fst (getRef G (butlast ds)) @ rest
             \<and> (\<forall>e. snd (getRef G (butlast ds)) = Ret (Inl e) \<longrightarrow>
                   rest = [] \<and> snd (getRef G ds) = Ret (Inl e))
             \<and> (\<forall>p. snd (getRef G (butlast ds)) = Ret (Inr p) \<longrightarrow>
                   rest = [CGetByBlob (last ds) (Some p), CRelease p]
                   \<and> snd (getRef G ds) = Ret (G (last ds) (Some p)))"
    if long: "1 < length ds"
  proof -
    from long have b: "butlast ds \<noteq> []" by (cases ds) auto
    from ne have "ds = butlast ds @ [last ds]" by simp
    with getRef_snoc [OF b, of G "last ds"]
    have unfold: "getRef G ds =
       (case getRef G (butlast ds) of
          (t, Panic m) \<Rightarrow> (t, Panic m)
        | (t, Ret (Inl e)) \<Rightarrow> (t, Ret (Inl e))
        | (t, Ret (Inr p)) \<Rightarrow>
            (t @ [CGetByBlob (last ds) (Some p), CRelease p], Ret (G (last ds) (Some p))))"
      by simp
    obtain t r where prefix: "getRef G (butlast ds) = (t, r)" by (cases "getRef G (butlast ds)")
    show ?thesis
    proof (cases r)
      case (Panic m)
      with unfold prefix show ?thesis by simp
    next
      case (Ret v)
      with unfold prefix show ?thesis by (cases v) simp_all
    qed
  qed
  from up order step show ?thesis by blast
qed

lemma getRef_empty: "getRef G [] = ([], Panic ''index out of range [-1]'')"
  by (simp add: getRef.simps [of G "[]"])

theorem getRef_parent_before_child_witness:
  "[''a'', ''b'', ''c''] \<noteq> []
   \<and> getRef blobRef [''a'', ''b'', ''c''] =
       ([CGetByBlob ''a'' None, CGetByBlob ''b'' (Some ''a''), CRelease ''a'',
         CGetByBlob ''c'' (Some ''ab''), CRelease ''ab''], Ret (Inr ''abc''))
   \<and> 1 < length [''a'', ''bad'', ''c'']
   \<and> getRef blobRef [''a'', ''bad'', ''c''] =
       ([CGetByBlob ''a'' None, CGetByBlob ''bad'' (Some ''a''), CRelease ''a''],
        Ret (Inl (Errorf ''no blob'')))"
proof -
  have h: "[''a'', ''b'', ''c''] \<noteq> []" "[''a'', ''bad'', ''c''] \<noteq> []" by simp_all
  from getRef_parent_before_child [OF h(1), of blobRef]
  have "getRef blobRef [''a'', ''b'', ''c''] =
       ([CGetByBlob ''a'' None, CGetByBlob ''b'' (Some ''a''), CRelease ''a'',
         CGetByBlob ''c'' (Some ''ab''), CRelease ''ab''], Ret (Inr ''abc''))"
    by (simp add: blobRef_def)
  moreover from getRef_parent_before_child [OF h(2), of blobRef]
  have "getRef blobRef [''a'', ''bad'', ''c''] =
       ([CGetByBlob ''a'' None, CGetByBlob ''bad'' (Some ''a''), CRelease ''a''],
        Ret (Inl (Errorf ''no blob'')))"
    by (simp add: blobRef_def)
  ultimately show ?thesis by simp
qed

end
